theory Spec2Isabelle
  imports Complex_Main
begin

section \<open>Python values\<close>

text \<open>
  A Python float is either the not-a-number value or a number. Rounding is not modelled:
  the numbers are reals. No property below depends on the value of an arithmetic
  expression, only on whether a value is not-a-number.
\<close>

datatype fval = NaN | Num real

definition isnan :: "fval \<Rightarrow> bool" where
  "isnan x = (x = NaN)"

fun fadd :: "fval \<Rightarrow> fval \<Rightarrow> fval" where
  "fadd (Num a) (Num b) = Num (a + b)"
| "fadd _ _ = NaN"

datatype pyval = VInt int | VFloat fval | VStr string

text \<open>A Python dict with string keys: the parameter set and the result record.\<close>

type_synonym pydict = "string \<rightharpoonup> pyval"

section \<open>Run identifiers, directory names and image file names\<close>

text \<open>
  The format specification \<open>04d\<close> of \<open>f"run_{run_id:04d}"\<close>: decimal digits, padded
  with zeros to width four, the sign of a negative number counted in the width and
  written before the zeros (\<open>5\<close> gives \<open>0005\<close>, \<open>-5\<close> gives \<open>-005\<close>, \<open>12345\<close> gives
  \<open>12345\<close>).
\<close>

definition digit_char :: "nat \<Rightarrow> char" where
  "digit_char d = char_of (48 + d)"

definition digit_val :: "char \<Rightarrow> nat" where
  "digit_val c = of_char c - 48"

fun decimal :: "nat \<Rightarrow> string" where
  "decimal n = (if n < 10 then [digit_char n] else decimal (n div 10) @ [digit_char (n mod 10)])"

declare decimal.simps [simp del]

definition zfill :: "nat \<Rightarrow> string \<Rightarrow> string" where
  "zfill w s = replicate (w - length s) (CHR ''0'') @ s"

definition format_04d :: "int \<Rightarrow> string" where
  "format_04d n =
     (if n < 0 then CHR ''-'' # zfill 3 (decimal (nat (- n))) else zfill 4 (decimal (nat n)))"

text \<open>Reading a string of digits back, used to show that the format loses nothing.\<close>

definition undecimal :: "string \<Rightarrow> nat" where
  "undecimal s = foldl (\<lambda>a c. 10 * a + digit_val c) 0 s"

definition unformat :: "string \<Rightarrow> int" where
  "unformat s =
     (case s of [] \<Rightarrow> 0
      | c # cs \<Rightarrow> if c = CHR ''-'' then - int (undecimal cs) else int (undecimal s))"

text \<open>
  \<open>os.path.join\<close> of two components, with the POSIX separator: a second component that
  starts with the separator replaces the first; an empty first component, or one that
  already ends with the separator, takes no extra separator.
\<close>

definition path_join :: "string \<Rightarrow> string \<Rightarrow> string" where
  "path_join a b =
     (if b \<noteq> [] \<and> hd b = CHR ''/'' then b
      else if a = [] \<or> last a = CHR ''/'' then a @ b
      else a @ ''/'' @ b)"

definition simulation_dir_name :: "int \<Rightarrow> string" where
  "simulation_dir_name run_id = ''run_'' @ format_04d run_id"

definition simulation_path :: "string \<Rightarrow> int \<Rightarrow> string" where
  "simulation_path base_run_dir run_id = path_join base_run_dir (simulation_dir_name run_id)"

definition input_png_name :: "int \<Rightarrow> string" where
  "input_png_name run_id = ''input_'' @ format_04d run_id @ ''.png''"

definition output_png_name :: "int \<Rightarrow> string" where
  "output_png_name run_id = ''output_'' @ format_04d run_id @ ''.png''"

definition input_png_path :: "string \<Rightarrow> int \<Rightarrow> string" where
  "input_png_path final_image_dir run_id = path_join final_image_dir (input_png_name run_id)"

definition output_png_path :: "string \<Rightarrow> int \<Rightarrow> string" where
  "output_png_path final_image_dir run_id = path_join final_image_dir (output_png_name run_id)"

section \<open>The solver binding\<close>

text \<open>
  Every call that leaves the program: the two file-system calls of the set-up, the launch
  of the solver process, and the methods of the solver object in the order of the binding's
  names. A command carries the arguments that the scripts compute themselves. The entity
  numbers that the binding returns for areas, keypoints and lines, and that the scripts
  hand back to it unchanged, are not carried. A keypoint \<open>K_polar r a\<close> stands for
  \<open>k("", r * cos (deg2rad a), r * sin (deg2rad a), 0)\<close>, and \<open>K_origin\<close> for \<open>k("", 0, 0, 0)\<close>.
\<close>

datatype cmd =
    Makedirs string
  | Launch_mapdl string string bool
  | Clear
  | Prep7
  | Mp string real
  | Et nat string
  | Cyl4 real
  | Asba
  | K_polar real fval
  | K_origin
  | L
  | Larc real
  | Al
  | Aglue
  | Smrtsize nat
  | Amesh
  | Eplot string
  | Finish
  | Slashsolu
  | Antype string
  | Tunif real
  | Lsel string string
  | Sfl string real real
  | Allsel
  | Local_cs nat nat
  | Csys nat
  | Nsel real real
  | Esln
  | Get_value_elem_count
  | Sfe pyval
  | Time_cmd real
  | Nsubst int
  | Kbc nat
  | Outres
  | Solve
  | Sfedele
  | Post1
  | Set_time real
  | Run string
  | Get_value_sort_max
  | Plot_nodal_temperature string
  | Exit_mapdl

text \<open>
  What a call does is not in the repository: a call either raises an exception of class
  \<open>Exception\<close> or returns, and \<open>get_value\<close> returns a float. The environment decides
  each call from the calls made before it. It also answers \<open>os.path.exists\<close> and gives
  the formatted time of \<open>datetime.now()\<close>. A run leaves a log of events: each call made,
  with what it did.
\<close>

datatype resp = Raise | Ok fval

record env =
  path_exists :: "string \<Rightarrow> bool"
  respond :: "cmd list \<Rightarrow> cmd \<Rightarrow> resp"
  now :: "cmd list \<Rightarrow> string"

datatype exn = OSError | KeyError string | TypeError | OverflowError | MapdlError cmd

datatype outcome = Raised exn | Returned pydict

type_synonym event = "cmd \<times> resp"

text \<open>One call: the answer, and the log with the event appended (also when it raises).\<close>

definition call :: "env \<Rightarrow> event list \<Rightarrow> cmd \<Rightarrow> resp \<times> event list" where
  "call env t c = (respond env (map fst t) c, t @ [(c, respond env (map fst t) c)])"

text \<open>
  A run of calls outside any \<open>try\<close>, results unused: it stops at the first call that
  raises and gives that call back.
\<close>

fun exec :: "env \<Rightarrow> cmd list \<Rightarrow> event list \<Rightarrow> cmd option \<times> event list" where
  "exec env [] t = (None, t)"
| "exec env (c # cs) t =
     (case call env t c of
        (Raise, t) \<Rightarrow> (Some c, t)
      | (Ok _, t) \<Rightarrow> exec env cs t)"

section \<open>Fixed parameters\<close>

definition disc_outer_radius :: real where "disc_outer_radius = 0.160"
definition braking_band_outer_radius :: real where "braking_band_outer_radius = 0.155"
definition braking_band_inner_radius :: real where "braking_band_inner_radius = 0.100"
definition hub_radius :: real where "hub_radius = 0.080"
definition thermal_conductivity :: real where "thermal_conductivity = 55"
definition density :: real where "density = 7200"
definition specific_heat :: real where "specific_heat = 460"
definition convection_coeff :: real where "convection_coeff = 120"
definition ambient_temp :: real where "ambient_temp = 22"
definition initial_temp :: real where "initial_temp = 22"
definition braking_time :: real where "braking_time = 4.0"
definition end_time :: real where "end_time = 10.0"
definition time_step :: real where "time_step = 0.25"

text \<open>\<open>int(x)\<close> of a float truncates towards zero.\<close>

definition py_int :: "real \<Rightarrow> int" where
  "py_int x = (if x < 0 then \<lceil>x\<rceil> else \<lfloor>x\<rfloor>)"

section \<open>The command sequences shared by the driver and the test script\<close>

text \<open>Section 4 up to the two rings: materials, element type, outer ring, inner ring.\<close>

definition model_setup_cmds :: "cmd list" where
  "model_setup_cmds =
     [Clear, Prep7,
      Mp ''KXX'' thermal_conductivity, Mp ''DENS'' density, Mp ''C'' specific_heat,
      Et 1 ''PLANE55'',
      Cyl4 disc_outer_radius, Cyl4 braking_band_outer_radius, Asba,
      Cyl4 braking_band_inner_radius, Cyl4 hub_radius, Asba]"

text \<open>
  An \<open>int\<close> converts to a \<open>float\<close> when it rounds to a finite double, that is when its
  magnitude is below \<open>2 ^ 1024 - 2 ^ 970\<close>; from there on the conversion raises
  \<open>OverflowError\<close>. (The value of the float is the integer itself: rounding is not
  modelled.)
\<close>

definition float_limit :: int where
  "float_limit = 2 ^ 1024 - 2 ^ 970"

definition float_of_int :: "int \<Rightarrow> fval option" where
  "float_of_int n = (if \<bar>n\<bar> < float_limit then Some (Num (real_of_int n)) else None)"

text \<open>
  The right operand of \<open>angle_start_deg + vane_thickness_deg\<close>, whose left operand is a
  float: a float is taken as it is, an int is converted, a string is a \<open>TypeError\<close>.
\<close>

fun as_float :: "pyval \<Rightarrow> exn + fval" where
  "as_float (VInt n) = (case float_of_int n of None \<Rightarrow> Inl OverflowError | Some x \<Rightarrow> Inr x)"
| "as_float (VFloat x) = Inr x"
| "as_float (VStr _) = Inl TypeError"

text \<open>
  The body of the vane loop for index \<open>i\<close>. The two angles are computed first:
  \<open>(360 / vane_count) * i\<close> converts the index to a float, and the addition converts the
  thickness; either can raise before the iteration has made a call. The arguments of a
  call are evaluated before the call, so the centre keypoint of each arc is created just
  before the arc.
\<close>

definition vane_cmds :: "int \<Rightarrow> pyval \<Rightarrow> nat \<Rightarrow> exn + cmd list" where
  "vane_cmds vane_count vane_thickness_deg i =
     (case float_of_int (int i) of
        None \<Rightarrow> Inl OverflowError
      | Some _ \<Rightarrow>
     (case as_float vane_thickness_deg of
        Inl e \<Rightarrow> Inl e
      | Inr thickness \<Rightarrow>
          (let angle_start_deg = Num (360 / real_of_int vane_count * real i);
               angle_end_deg = fadd angle_start_deg thickness
           in Inr [K_polar braking_band_inner_radius angle_start_deg,
                   K_polar braking_band_outer_radius angle_start_deg,
                   K_polar braking_band_outer_radius angle_end_deg,
                   K_polar braking_band_inner_radius angle_end_deg,
                   L, K_origin, Larc braking_band_outer_radius,
                   L, K_origin, Larc braking_band_inner_radius,
                   Al])))"

text \<open>\<open>range(vane_count)\<close> for an integer count: empty when the count is not positive.\<close>

definition py_range :: "int \<Rightarrow> nat list" where
  "py_range n = [0..<nat n]"

text \<open>
  The iterations of the loop over a list of indices: the calls that the loop makes, in
  order, and the exception that ends it after them, if any.
\<close>

fun vane_iterations :: "int \<Rightarrow> pyval \<Rightarrow> nat list \<Rightarrow> cmd list \<times> exn option" where
  "vane_iterations vane_count vane_thickness_deg [] = ([], None)"
| "vane_iterations vane_count vane_thickness_deg (i # is) =
     (case vane_cmds vane_count vane_thickness_deg i of
        Inl e \<Rightarrow> ([], Some e)
      | Inr cs \<Rightarrow>
          (case vane_iterations vane_count vane_thickness_deg is of
             (ds, stop) \<Rightarrow> (cs @ ds, stop)))"

text \<open>
  The whole vane loop. \<open>range(vane_count)\<close> is a \<open>TypeError\<close> unless the count is an
  integer, and then the loop makes no call.
\<close>

definition vane_loop_cmds :: "pyval \<Rightarrow> pyval \<Rightarrow> cmd list \<times> exn option" where
  "vane_loop_cmds vane_count vane_thickness_deg =
     (case vane_count of
        VInt n \<Rightarrow> vane_iterations n vane_thickness_deg (py_range n)
      | _ \<Rightarrow> ([], Some TypeError))"

definition mesh_cmds :: "cmd list" where
  "mesh_cmds = [Aglue, Smrtsize 4, Amesh]"

text \<open>Section 5 up to the selection of the elements of the braking band.\<close>

definition load_select_cmds :: "cmd list" where
  "load_select_cmds =
     [Finish, Slashsolu, Antype ''TRANSIENT'', Tunif initial_temp,
      Lsel ''S'' ''EXT'', Sfl ''CONV'' convection_coeff ambient_temp, Allsel,
      Local_cs 11 1, Csys 11,
      Nsel braking_band_inner_radius braking_band_outer_radius,
      Esln]"

text \<open>The heat flux on the selected elements, the heating step, and the cooling step.\<close>

definition heat_and_cool_cmds :: "pyval \<Rightarrow> cmd list" where
  "heat_and_cool_cmds heat_flux =
     [Sfe heat_flux, Csys 0, Allsel,
      Time_cmd braking_time, Nsubst (py_int (braking_time / time_step)), Kbc 0, Outres,
      Solve,
      Csys 11, Nsel braking_band_inner_radius braking_band_outer_radius,
      Esln, Sfedele, Csys 0, Allsel,
      Time_cmd end_time, Nsubst (py_int ((end_time - braking_time) / time_step)),
      Solve]"

text \<open>Section 6 before its \<open>try\<close>: the result state at the end of the heating step.\<close>

definition post_setup_cmds :: "cmd list" where
  "post_setup_cmds = [Finish, Post1, Set_time braking_time]"

section \<open>The single-run driver\<close>

text \<open>
  The \<open>try\<close> block of section 6. \<open>peak_temperature\<close> starts as not-a-number and is
  assigned when \<open>get_value\<close> returns; an exception of any of the three calls ends the
  block, and the handler only prints.
\<close>

definition post_processing :: "env \<Rightarrow> string \<Rightarrow> event list \<Rightarrow> fval \<times> event list" where
  "post_processing env png t =
     (case call env t (Run ''NSORT,TEMP,,1'') of
        (Raise, t) \<Rightarrow> (NaN, t)
      | (Ok _, t) \<Rightarrow>
     (case call env t Get_value_sort_max of
        (Raise, t) \<Rightarrow> (NaN, t)
      | (Ok peak_temperature, t) \<Rightarrow>
     (case call env t (Plot_nodal_temperature png) of
        (Raise, t) \<Rightarrow> (peak_temperature, t)
      | (Ok _, t) \<Rightarrow> (peak_temperature, t))))"

definition launch_failed_record :: "string \<Rightarrow> pydict" where
  "launch_failed_record ts =
     [''peak_temp'' \<mapsto> VFloat NaN, ''status'' \<mapsto> VStr ''launch_failed'',
      ''timestamp'' \<mapsto> VStr ts]"

definition final_record :: "int \<Rightarrow> fval \<Rightarrow> string \<Rightarrow> pydict" where
  "final_record run_id peak_temperature ts =
     [''run_id'' \<mapsto> VInt run_id, ''peak_temp'' \<mapsto> VFloat peak_temperature,
      ''status'' \<mapsto>
         VStr (if \<not> isnan peak_temperature then ''success'' else ''post_processing_failed''),
      ''timestamp'' \<mapsto> VStr ts]"

text \<open>
  Section 4, pre-processing: the model, the vanes, the mesh, and the picture of the mesh,
  whose exception a bare \<open>except\<close> swallows. The result is the exception that leaves the
  section, if any.
\<close>

definition pre_processing ::
  "env \<Rightarrow> pyval \<Rightarrow> pyval \<Rightarrow> string \<Rightarrow> event list \<Rightarrow> exn option \<times> event list" where
  "pre_processing env vane_count vane_thickness_deg png t =
     (case exec env model_setup_cmds t of
        (Some c, t) \<Rightarrow> (Some (MapdlError c), t)
      | (None, t) \<Rightarrow>
     (case vane_loop_cmds vane_count vane_thickness_deg of
        (vanes, stop) \<Rightarrow>
     (case exec env vanes t of
        (Some c, t) \<Rightarrow> (Some (MapdlError c), t)
      | (None, t) \<Rightarrow>
     (case stop of
        Some e \<Rightarrow> (Some e, t)
      | None \<Rightarrow>
     (case exec env mesh_cmds t of
        (Some c, t) \<Rightarrow> (Some (MapdlError c), t)
      | (None, t) \<Rightarrow>
     (case call env t (Eplot png) of
        (Raise, t) \<Rightarrow> (None, t)
      | (Ok _, t) \<Rightarrow> (None, t)))))))"

text \<open>Section 5, solution: loads, heating step, cooling step. Nothing here is in a \<open>try\<close>.\<close>

definition solution :: "env \<Rightarrow> pyval \<Rightarrow> event list \<Rightarrow> exn option \<times> event list" where
  "solution env heat_flux t =
     (case exec env (load_select_cmds @ heat_and_cool_cmds heat_flux) t of
        (Some c, t) \<Rightarrow> (Some (MapdlError c), t)
      | (None, t) \<Rightarrow> (None, t))"

text \<open>
  Sections 6 and 7: the result state is loaded outside the \<open>try\<close>, then the \<open>try\<close> block
  runs, then the solver is told to exit and the record is built.
\<close>

definition post_process_and_finish ::
  "env \<Rightarrow> int \<Rightarrow> string \<Rightarrow> event list \<Rightarrow> outcome \<times> event list" where
  "post_process_and_finish env run_id final_image_dir t =
     (case exec env post_setup_cmds t of
        (Some c, t) \<Rightarrow> (Raised (MapdlError c), t)
      | (None, t) \<Rightarrow>
     (case post_processing env (output_png_path final_image_dir run_id) t of
        (peak_temperature, t) \<Rightarrow>
     (case exec env [Exit_mapdl] t of
        (Some c, t) \<Rightarrow> (Raised (MapdlError c), t)
      | (None, t) \<Rightarrow>
          (Returned (final_record run_id peak_temperature (now env (map fst t))), t))))"

text \<open>Sections 4 to 7 in sequence, with the three parameters read.\<close>

definition simulate ::
  "env \<Rightarrow> int \<Rightarrow> pyval \<Rightarrow> pyval \<Rightarrow> pyval \<Rightarrow> string \<Rightarrow> event list \<Rightarrow> outcome \<times> event list" where
  "simulate env run_id vane_count vane_thickness_deg heat_flux final_image_dir t =
     (case pre_processing env vane_count vane_thickness_deg
             (input_png_path final_image_dir run_id) t of
        (Some e, t) \<Rightarrow> (Raised e, t)
      | (None, t) \<Rightarrow>
     (case solution env heat_flux t of
        (Some e, t) \<Rightarrow> (Raised e, t)
      | (None, t) \<Rightarrow> post_process_and_finish env run_id final_image_dir t))"

text \<open>Section 3: the three subscriptions of \<open>params\<close>, each a \<open>KeyError\<close> on a missing key.\<close>

definition read_params_and_simulate ::
  "env \<Rightarrow> int \<Rightarrow> pydict \<Rightarrow> string \<Rightarrow> event list \<Rightarrow> outcome \<times> event list" where
  "read_params_and_simulate env run_id params final_image_dir t =
     (case params ''vane_count'' of
        None \<Rightarrow> (Raised (KeyError ''vane_count''), t)
      | Some vane_count \<Rightarrow>
     (case params ''vane_thickness_deg'' of
        None \<Rightarrow> (Raised (KeyError ''vane_thickness_deg''), t)
      | Some vane_thickness_deg \<Rightarrow>
     (case params ''heat_flux'' of
        None \<Rightarrow> (Raised (KeyError ''heat_flux''), t)
      | Some heat_flux \<Rightarrow>
          simulate env run_id vane_count vane_thickness_deg heat_flux final_image_dir t)))"

definition jobname :: string where
  "jobname = ''disc_model''"

text \<open>
  The driver. Sections 1 and 2: the run directory is created when it does not exist (an
  \<open>OSError\<close> of \<open>os.makedirs\<close> is not caught), then the solver is launched; an exception
  of the launch is caught and the function returns at once. The result is what the call
  does, raise or return a dict, and the log of the calls made.
\<close>

definition run_single_simulation ::
  "env \<Rightarrow> int \<Rightarrow> pydict \<Rightarrow> string \<Rightarrow> string \<Rightarrow> outcome \<times> event list" where
  "run_single_simulation env run_id params base_run_dir final_image_dir =
     (let path = simulation_path base_run_dir run_id in
      case exec env (if \<not> path_exists env path then [Makedirs path] else []) [] of
        (Some c, t) \<Rightarrow> (Raised OSError, t)
      | (None, t) \<Rightarrow>
     (case call env t (Launch_mapdl path jobname True) of
        (Raise, t) \<Rightarrow> (Returned (launch_failed_record (now env (map fst t))), t)
      | (Ok _, t) \<Rightarrow> read_params_and_simulate env run_id params final_image_dir t))"

section \<open>The single-instance test script\<close>








section \<open>The timing harness\<close>

text \<open>The inputs with which \<open>time_test.py\<close> calls the driver.\<close>

definition BASE_RUN_DIR :: string where
  "BASE_RUN_DIR = ''ansys_runs_timetest''"

definition FINAL_IMAGE_DIR :: string where
  "FINAL_IMAGE_DIR = ''dataset_images_timetest''"

definition time_test_params :: pydict where
  "time_test_params =
     [''vane_count'' \<mapsto> VInt 54, ''vane_thickness_deg'' \<mapsto> VFloat (Num 2.5),
      ''heat_flux'' \<mapsto> VFloat (Num 1900000)]"

definition time_test_run :: "env \<Rightarrow> outcome \<times> event list" where
  "time_test_run env = run_single_simulation env 1 time_test_params BASE_RUN_DIR FINAL_IMAGE_DIR"

section \<open>Notions used in the properties\<close>

text \<open>The calls that the driver makes inside a \<open>try\<close>.\<close>

definition guarded :: "cmd \<Rightarrow> bool" where
  "guarded c =
     (case c of
        Launch_mapdl _ _ _ \<Rightarrow> True
      | Eplot _ \<Rightarrow> True
      | Run _ \<Rightarrow> True
      | Get_value_sort_max \<Rightarrow> True
      | Plot_nodal_temperature _ \<Rightarrow> True
      | _ \<Rightarrow> False)"

text \<open>The two image renderings.\<close>

definition is_render :: "cmd \<Rightarrow> bool" where
  "is_render c = (case c of Eplot _ \<Rightarrow> True | Plot_nodal_temperature _ \<Rightarrow> True | _ \<Rightarrow> False)"

definition is_launch :: "cmd \<Rightarrow> bool" where
  "is_launch c = (case c of Launch_mapdl _ _ _ \<Rightarrow> True | _ \<Rightarrow> False)"

text \<open>The calls of sections 1 and 2: the directory and the launch.\<close>

definition is_setup :: "cmd \<Rightarrow> bool" where
  "is_setup c = (case c of Makedirs _ \<Rightarrow> True | Launch_mapdl _ _ _ \<Rightarrow> True | _ \<Rightarrow> False)"

text \<open>The calls of sections 4 to 6 that are in no \<open>try\<close>: the model, the loads, the solves.\<close>

definition plain :: "cmd \<Rightarrow> bool" where
  "plain c = (\<not> guarded c \<and> \<not> is_setup c \<and> c \<noteq> Exit_mapdl)"

definition returned :: "event \<Rightarrow> bool" where
  "returned e = (snd e \<noteq> Raise)"

text \<open>A call to \<open>c\<close> that raised, and one that returned, in a log.\<close>

definition raised_in :: "event list \<Rightarrow> cmd \<Rightarrow> bool" where
  "raised_in t c = ((c, Raise) \<in> set t)"

definition returned_in :: "event list \<Rightarrow> cmd \<Rightarrow> bool" where
  "returned_in t c = (c \<in> fst ` set (filter returned t))"

text \<open>
  The events that sections 4 and 5 can leave behind them when they are passed: unguarded
  calls that returned, and the picture of the mesh, whatever it did.
\<close>

definition body :: "event list \<Rightarrow> bool" where
  "body es = (\<forall>e\<in>set es. (plain (fst e) \<and> returned e) \<or> is_render (fst e))"

text \<open>Events that are neither of the set-up nor the solver's exit.\<close>

definition no_exit :: "event list \<Rightarrow> bool" where
  "no_exit es = (\<forall>e\<in>set es. fst e \<noteq> Exit_mapdl \<and> \<not> is_setup (fst e))"

text \<open>Events of \<open>os.makedirs\<close> that returned.\<close>

definition dir_made :: "event list \<Rightarrow> bool" where
  "dir_made es = (\<forall>e\<in>set es. (case fst e of Makedirs _ \<Rightarrow> True | _ \<Rightarrow> False) \<and> returned e)"

text \<open>The events of a section against the exception with which it ended, if any.\<close>

definition phase_log :: "exn option \<Rightarrow> event list \<Rightarrow> bool" where
  "phase_log r es =
     (case r of
        None \<Rightarrow> body es
      | Some (MapdlError c) \<Rightarrow> plain c \<and> es \<noteq> [] \<and> last es = (c, Raise) \<and> body (butlast es)
      | Some TypeError \<Rightarrow> body es
      | Some OverflowError \<Rightarrow> body es
      | Some _ \<Rightarrow> False)"

definition launched :: "event list \<Rightarrow> bool" where
  "launched t = (filter (\<lambda>e. is_launch (fst e) \<and> returned e) t \<noteq> [])"

definition status_of :: "outcome \<Rightarrow> pyval option" where
  "status_of out = (case out of Returned r \<Rightarrow> r ''status'' | Raised _ \<Rightarrow> None)"

definition peak_temp_of :: "outcome \<Rightarrow> pyval option" where
  "peak_temp_of out = (case out of Returned r \<Rightarrow> r ''peak_temp'' | Raised _ \<Rightarrow> None)"

definition has_returned :: "outcome \<Rightarrow> bool" where
  "has_returned out = (case out of Returned _ \<Rightarrow> True | Raised _ \<Rightarrow> False)"

text \<open>The calls that the vane loop makes.\<close>

definition is_vane_cmd :: "cmd \<Rightarrow> bool" where
  "is_vane_cmd c =
     (case c of K_polar _ _ \<Rightarrow> True | K_origin \<Rightarrow> True | L \<Rightarrow> True | Larc _ \<Rightarrow> True
      | Al \<Rightarrow> True | _ \<Rightarrow> False)"

text \<open>The driver has raised a \<open>KeyError\<close>, and for a key that \<open>params\<close> does not have.\<close>

definition is_key_error :: "pydict \<Rightarrow> outcome \<Rightarrow> bool" where
  "is_key_error params out =
     (case out of Raised (KeyError k) \<Rightarrow> params k = None | _ \<Rightarrow> False)"

text \<open>A log in which every call is one of the set-up.\<close>

definition only_setup :: "event list \<Rightarrow> bool" where
  "only_setup t = list_all (\<lambda>e. is_setup (fst e)) t"

text \<open>A log in which every call that raised is one that the driver makes inside a \<open>try\<close>.\<close>

definition caught :: "event list \<Rightarrow> bool" where
  "caught es = (\<forall>e\<in>set es. snd e = Raise \<longrightarrow> guarded (fst e))"

text \<open>The exception with which a call raises: the one of \<open>os.makedirs\<close>, or the solver's.\<close>

definition exception_of :: "cmd \<Rightarrow> exn" where
  "exception_of c = (case c of Makedirs _ \<Rightarrow> OSError | _ \<Rightarrow> MapdlError c)"

text \<open>
  A parameter set with which sections 3 and 4 raise nothing of their own: the three keys
  are there, the vane count is an integer whose loop indices all convert to a float, and,
  when the loop has an iteration, the vane thickness is a float or an integer that
  converts to one.
\<close>

definition numeric :: "pyval \<Rightarrow> bool" where
  "numeric v = (case v of VInt k \<Rightarrow> \<bar>k\<bar> < float_limit | VFloat _ \<Rightarrow> True | VStr _ \<Rightarrow> False)"

definition usable :: "pydict \<Rightarrow> bool" where
  "usable params =
     (case params ''vane_count'' of
        Some (VInt n) \<Rightarrow>
          (case params ''vane_thickness_deg'' of
             Some thickness \<Rightarrow>
               params ''heat_flux'' \<noteq> None \<and> n \<le> float_limit \<and> (0 < n \<longrightarrow> numeric thickness)
           | None \<Rightarrow> False)
      | _ \<Rightarrow> False)"

text \<open>
  Environments for concrete runs: no directory exists yet, the clock stands still, and
  what a call does depends on the call alone.
\<close>

definition const_env :: "(cmd \<Rightarrow> resp) \<Rightarrow> env" where
  "const_env f =
     \<lparr>path_exists = (\<lambda>_. False), respond = (\<lambda>_. f), now = (\<lambda>_. ''2025-01-01 12:00:00'')\<rparr>"

definition all_ok :: "cmd \<Rightarrow> resp" where
  "all_ok c = Ok (Num 100)"

definition solve_fails :: "cmd \<Rightarrow> resp" where
  "solve_fails c = (if c = Solve then Raise else Ok (Num 100))"

definition amesh_fails :: "cmd \<Rightarrow> resp" where
  "amesh_fails c = (if c = Amesh then Raise else Ok (Num 100))"

definition launch_fails :: "cmd \<Rightarrow> resp" where
  "launch_fails c = (if is_launch c then Raise else Ok (Num 100))"

definition plot_fails :: "cmd \<Rightarrow> resp" where
  "plot_fails c = (case c of Plot_nodal_temperature _ \<Rightarrow> Raise | _ \<Rightarrow> Ok (Num 100))"

definition sort_fails :: "cmd \<Rightarrow> resp" where
  "sort_fails c = (case c of Run _ \<Rightarrow> Raise | _ \<Rightarrow> Ok (Num 100))"

definition render_fails :: "cmd \<Rightarrow> resp" where
  "render_fails c = (if is_render c then Raise else Ok (Num 100))"

definition nan_extracted :: "cmd \<Rightarrow> resp" where
  "nan_extracted c = (if c = Get_value_sort_max then Ok NaN else Ok (Num 100))"




section \<open>Formatting is injective\<close>

lemma digit_val_digit_char: "d < 10 \<Longrightarrow> digit_val (digit_char d) = d"
  by (simp add: digit_val_def digit_char_def)

lemma undecimal_snoc: "undecimal (s @ [c]) = 10 * undecimal s + digit_val c"
  by (simp add: undecimal_def)

lemma undecimal_decimal: "undecimal (decimal n) = n"
proof (induction n rule: decimal.induct)
  case (1 n)
  show ?case
  proof (cases "n < 10")
    case True
    then show ?thesis
      by (simp add: decimal.simps [of n] undecimal_def digit_val_digit_char)
  next
    case False
    then have "undecimal (decimal (n div 10)) = n div 10"
      using 1 by simp
    with False show ?thesis
      by (simp add: decimal.simps [of n] undecimal_snoc digit_val_digit_char)
  qed
qed

lemma undecimal_zeros: "undecimal (replicate k (CHR ''0'') @ s) = undecimal s"
proof -
  have "foldl (\<lambda>a c. 10 * a + digit_val c) 0 (replicate k (CHR ''0'')) = 0"
    by (induction k) (simp_all add: digit_val_def)
  then show ?thesis
    by (simp add: undecimal_def)
qed

lemma undecimal_zfill: "undecimal (zfill w (decimal n)) = n"
  by (simp add: zfill_def undecimal_zeros undecimal_decimal)

lemma decimal_not_empty: "decimal n \<noteq> []"
  by (subst decimal.simps) simp

lemma digit_char_not_minus: "d < 10 \<Longrightarrow> digit_char d \<noteq> CHR ''-''"
proof
  assume d: "d < 10" and eq: "digit_char d = CHR ''-''"
  from eq have "(of_char (digit_char d) :: nat) = of_char (CHR ''-'')"
    by simp
  with d show False
    by (simp add: digit_char_def)
qed

lemma hd_decimal_not_minus: "hd (decimal n) \<noteq> CHR ''-''"
proof (induction n rule: decimal.induct)
  case (1 n)
  show ?case
  proof (cases "n < 10")
    case True
    then show ?thesis
      by (simp add: decimal.simps [of n] digit_char_not_minus)
  next
    case False
    with 1 show ?thesis
      by (simp add: decimal.simps [of n] decimal_not_empty)
  qed
qed

lemma hd_zfill_not_minus: "hd (zfill w (decimal n)) \<noteq> CHR ''-''"
proof (cases "w - length (decimal n)")
  case 0
  then show ?thesis
    by (simp add: zfill_def hd_decimal_not_minus)
next
  case (Suc k)
  then show ?thesis
    by (simp add: zfill_def)
qed

lemma zfill_not_empty: "zfill w (decimal n) \<noteq> []"
  by (simp add: zfill_def decimal_not_empty)

lemma unformat_format_04d: "unformat (format_04d n) = n"
proof (cases "n < 0")
  case True
  then show ?thesis
    by (simp add: format_04d_def unformat_def undecimal_zfill)
next
  case False
  obtain c cs where z: "zfill 4 (decimal (nat n)) = c # cs"
    using zfill_not_empty [of 4 "nat n"] by (cases "zfill 4 (decimal (nat n))") auto
  have "c \<noteq> CHR ''-''"
    using hd_zfill_not_minus [of 4 "nat n"] z by simp
  moreover have "undecimal (c # cs) = nat n"
    using undecimal_zfill [of 4 "nat n"] z by simp
  ultimately show ?thesis
    using False z by (simp add: format_04d_def unformat_def)
qed

lemma format_04d_inj: "format_04d a = format_04d b \<longleftrightarrow> a = b"
  using unformat_format_04d by metis

lemma path_join_name:
  "b \<noteq> [] \<Longrightarrow> hd b \<noteq> CHR ''/'' \<Longrightarrow>
   path_join a b = (if a = [] \<or> last a = CHR ''/'' then a else a @ ''/'') @ b"
  by (simp add: path_join_def)

section \<open>Runs of calls\<close>

lemma call_eq: "call env t c = (r, t') \<longleftrightarrow> r = respond env (map fst t) c \<and> t' = t @ [(c, r)]"
  by (auto simp: call_def)

lemma exec_Cons_Raise:
  "respond env (map fst t) c = Raise \<Longrightarrow> exec env (c # cs) t = (Some c, t @ [(c, Raise)])"
  by (simp add: call_def)

lemma exec_Cons_Ok:
  "respond env (map fst t) c = Ok v \<Longrightarrow> exec env (c # cs) t = exec env cs (t @ [(c, Ok v)])"
  by (simp add: call_def)

lemma exec_append:
  "exec env (xs @ ys) t =
     (case exec env xs t of (None, t') \<Rightarrow> exec env ys t' | (Some c, t') \<Rightarrow> (Some c, t'))"
proof (induction xs arbitrary: t)
  case Nil
  show ?case by simp
next
  case (Cons x xs)
  show ?case
  proof (cases "respond env (map fst t) x")
    case Raise
    then show ?thesis
      by (simp only: append_Cons exec_Cons_Raise prod.case option.case)
  next
    case (Ok v)
    then show ?thesis
      by (simp only: append_Cons exec_Cons_Ok Cons.IH)
  qed
qed

lemma exec_NoneD:
  "exec env cs t = (None, t') \<Longrightarrow>
   \<exists>es. t' = t @ es \<and> map fst es = cs \<and> (\<forall>e\<in>set es. returned e)"
proof (induction cs arbitrary: t)
  case Nil
  then show ?case by simp
next
  case (Cons c cs)
  show ?case
  proof (cases "respond env (map fst t) c")
    case Raise
    with Cons.prems show ?thesis
      by (simp add: exec_Cons_Raise del: exec.simps)
  next
    case (Ok v)
    with Cons.prems have e: "exec env cs (t @ [(c, Ok v)]) = (None, t')"
      by (simp add: exec_Cons_Ok del: exec.simps)
    from Cons.IH [OF e] obtain es where
      es: "t' = (t @ [(c, Ok v)]) @ es" "map fst es = cs" "\<forall>e\<in>set es. returned e"
      by (elim exE conjE)
    show ?thesis
      by (rule exI [where x = "(c, Ok v) # es"]) (use es in \<open>simp add: returned_def\<close>)
  qed
qed

lemma exec_SomeD:
  "exec env cs t = (Some c, t') \<Longrightarrow>
   \<exists>es. t' = t @ es @ [(c, Raise)] \<and> (\<forall>e\<in>set es. returned e) \<and> c \<in> set cs \<and>
        fst ` set es \<subseteq> set cs \<and> respond env (map fst (t @ es)) c = Raise"
proof (induction cs arbitrary: t)
  case Nil
  then show ?case by simp
next
  case (Cons d cs)
  show ?case
  proof (cases "respond env (map fst t) d")
    case Raise
    with Cons.prems have cd: "d = c" "t' = t @ [(c, Raise)]"
      by (auto simp add: exec_Cons_Raise simp del: exec.simps)
    show ?thesis
      by (rule exI [where x = "[]"]) (use cd Raise in simp)
  next
    case (Ok v)
    with Cons.prems have e: "exec env cs (t @ [(d, Ok v)]) = (Some c, t')"
      by (simp add: exec_Cons_Ok del: exec.simps)
    from Cons.IH [OF e] obtain es where es:
      "t' = (t @ [(d, Ok v)]) @ es @ [(c, Raise)]" "\<forall>e\<in>set es. returned e" "c \<in> set cs"
      "fst ` set es \<subseteq> set cs" "respond env (map fst ((t @ [(d, Ok v)]) @ es)) c = Raise"
      by (elim exE conjE)
    have s: "fst ` set ((d, Ok v) # es) \<subseteq> set (d # cs)"
      using es(4) by auto
    show ?thesis
      apply (rule exI [where x = "(d, Ok v) # es"])
      apply (intro conjI)
          apply (simp add: es(1))
         apply (use es(2) in \<open>simp add: returned_def\<close>)
        apply (simp add: es(3))
       apply (rule s)
      apply (use es(5) in simp)
      done
  qed
qed

section \<open>The events of a section\<close>

lemma plain_model_setup: "c \<in> set model_setup_cmds \<Longrightarrow> plain c"
  by (auto simp: model_setup_cmds_def plain_def guarded_def is_setup_def)

lemma vane_cmds_Inr:
  "vane_cmds n th i = Inr cs \<Longrightarrow>
   \<exists>a b. cs = [K_polar braking_band_inner_radius a, K_polar braking_band_outer_radius a,
                K_polar braking_band_outer_radius b, K_polar braking_band_inner_radius b,
                L, K_origin, Larc braking_band_outer_radius,
                L, K_origin, Larc braking_band_inner_radius, Al]"
  by (auto simp: vane_cmds_def Let_def split: option.splits sum.splits)

lemma vane_cmds_Inl: "vane_cmds n th i = Inl e \<Longrightarrow> e = TypeError \<or> e = OverflowError"
  by (cases th) (auto simp: vane_cmds_def Let_def split: option.splits sum.splits)

lemma vane_cmds_shape: "vane_cmds n th i = Inr cs \<Longrightarrow> c \<in> set cs \<Longrightarrow> is_vane_cmd c"
  by (drule vane_cmds_Inr) (auto simp: is_vane_cmd_def)

lemma vane_iterations_shape: "c \<in> set (fst (vane_iterations n th is)) \<Longrightarrow> is_vane_cmd c"
proof (induction "is")
  case Nil
  then show ?case by simp
next
  case (Cons i "is")
  show ?case
  proof (cases "vane_cmds n th i")
    case (Inl e)
    with Cons.prems show ?thesis by simp
  next
    case (Inr cs)
    with Cons.prems have "c \<in> set cs \<or> c \<in> set (fst (vane_iterations n th is))"
      by (cases "vane_iterations n th is") auto
    then show ?thesis
      using vane_cmds_shape [OF Inr] Cons.IH by blast
  qed
qed

lemma vane_iterations_stop:
  "snd (vane_iterations n th is) = Some e \<Longrightarrow> e = TypeError \<or> e = OverflowError"
proof (induction "is")
  case Nil
  then show ?case by simp
next
  case (Cons i "is")
  show ?case
  proof (cases "vane_cmds n th i")
    case (Inl e')
    with Cons.prems have "e' = e" by simp
    with Inl show ?thesis by (simp add: vane_cmds_Inl)
  next
    case (Inr cs)
    with Cons.prems have "snd (vane_iterations n th is) = Some e"
      by (cases "vane_iterations n th is") auto
    then show ?thesis by (rule Cons.IH)
  qed
qed

lemma vane_loop_shape: "c \<in> set (fst (vane_loop_cmds vc th)) \<Longrightarrow> is_vane_cmd c"
  by (cases vc) (simp_all add: vane_loop_cmds_def vane_iterations_shape)

lemma vane_loop_stop:
  "snd (vane_loop_cmds vc th) = Some e \<Longrightarrow> e = TypeError \<or> e = OverflowError"
  by (cases vc) (simp_all add: vane_loop_cmds_def vane_iterations_stop)

lemma plain_vane_cmd: "is_vane_cmd c \<Longrightarrow> plain c"
  by (cases c) (simp_all add: is_vane_cmd_def plain_def guarded_def is_setup_def)

lemma plain_mesh: "c \<in> set mesh_cmds \<Longrightarrow> plain c"
  by (auto simp: mesh_cmds_def plain_def guarded_def is_setup_def)

lemma plain_load_select: "c \<in> set load_select_cmds \<Longrightarrow> plain c"
  by (auto simp: load_select_cmds_def plain_def guarded_def is_setup_def)

lemma plain_heat_and_cool: "c \<in> set (heat_and_cool_cmds hf) \<Longrightarrow> plain c"
  by (auto simp: heat_and_cool_cmds_def plain_def guarded_def is_setup_def)

lemma plain_post_setup: "c \<in> set post_setup_cmds \<Longrightarrow> plain c"
  by (auto simp: post_setup_cmds_def plain_def guarded_def is_setup_def)

lemma plain_vane_loop: "c \<in> set (fst (vane_loop_cmds vc th)) \<Longrightarrow> plain c"
  by (rule plain_vane_cmd) (rule vane_loop_shape)

lemma body_Nil: "body []"
  by (simp add: body_def)

lemma body_append: "body (a @ b) \<longleftrightarrow> body a \<and> body b"
  by (auto simp: body_def)

lemma body_render: "is_render c \<Longrightarrow> body [(c, r)]"
  by (simp add: body_def)

lemma body_returned:
  "\<forall>e\<in>set es. returned e \<Longrightarrow> \<forall>e\<in>set es. plain (fst e) \<Longrightarrow> body es"
  by (simp add: body_def)

lemma phase_log_prepend: "body a \<Longrightarrow> phase_log r b \<Longrightarrow> phase_log r (a @ b)"
  by (cases r; cases "the r")
     (auto simp: phase_log_def body_append butlast_append split: option.splits exn.splits)

lemma exec_phase_log:
  assumes pl: "\<forall>c\<in>set cs. plain c" and ex: "exec env cs t = (r, t')"
  shows "\<exists>es. t' = t @ es \<and> phase_log (map_option MapdlError r) es"
proof (cases r)
  case None
  from exec_NoneD [OF ex [unfolded None]] obtain es where
    es: "t' = t @ es" "map fst es = cs" "\<forall>e\<in>set es. returned e"
    by (elim exE conjE)
  have "\<forall>e\<in>set es. plain (fst e)"
    using pl unfolding es(2) [symmetric] by simp
  then have "body es"
    using es(3) by (rule body_returned [rotated])
  then show ?thesis
    using es(1) None by (simp add: phase_log_def)
next
  case (Some c)
  from exec_SomeD [OF ex [unfolded Some]] obtain es where
    es: "t' = t @ es @ [(c, Raise)]" "\<forall>e\<in>set es. returned e" "c \<in> set cs"
      "fst ` set es \<subseteq> set cs"
    by (elim exE conjE)
  have "\<forall>e\<in>set es. plain (fst e)"
    using pl es(4) by auto
  then have "body es"
    using es(2) by (rule body_returned [rotated])
  moreover have "plain c"
    using pl es(3) by simp
  ultimately have "phase_log (Some (MapdlError c)) (es @ [(c, Raise)])"
    by (simp add: phase_log_def)
  then show ?thesis
    using es(1) Some by auto
qed

lemma pre_processing_log:
  assumes pre: "pre_processing env vc th png t = (r, t')"
  shows "\<exists>es. t' = t @ es \<and> phase_log r es"
proof -
  obtain vanes stop where vl: "vane_loop_cmds vc th = (vanes, stop)"
    by (cases "vane_loop_cmds vc th")
  obtain r1 t1 where e1: "exec env model_setup_cmds t = (r1, t1)"
    by (cases "exec env model_setup_cmds t")
  from exec_phase_log [OF _ e1] plain_model_setup obtain es1 where
    es1: "t1 = t @ es1" "phase_log (map_option MapdlError r1) es1"
    by blast
  show ?thesis
  proof (cases r1)
    case (Some c)
    with pre e1 have "r = Some (MapdlError c)" "t' = t1"
      by (simp_all add: pre_processing_def)
    with es1 Some show ?thesis by simp
  next
    case None
    then have b1: "body es1"
      using es1(2) by (simp add: phase_log_def)
    obtain r2 t2 where e2: "exec env vanes t1 = (r2, t2)"
      by (cases "exec env vanes t1")
    have "\<forall>c\<in>set vanes. plain c"
      using plain_vane_loop [of _ vc th] vl by simp
    from exec_phase_log [OF this e2] obtain es2 where
      es2: "t2 = t1 @ es2" "phase_log (map_option MapdlError r2) es2"
      by blast
    show ?thesis
    proof (cases r2)
      case (Some c)
      with pre e1 None vl e2 have "r = Some (MapdlError c)" "t' = t2"
        by (simp_all add: pre_processing_def)
      moreover have "phase_log (Some (MapdlError c)) (es1 @ es2)"
        using b1 es2(2) Some by (simp add: phase_log_prepend)
      ultimately show ?thesis
        using es1(1) es2(1) by simp
    next
      case None2: None
      then have b2: "body es2"
        using es2(2) by (simp add: phase_log_def)
      show ?thesis
      proof (cases stop)
        case (Some e)
        with pre e1 None vl e2 None2 have "r = Some e" "t' = t2"
          by (simp_all add: pre_processing_def)
        moreover have "e = TypeError \<or> e = OverflowError"
          using vl Some vane_loop_stop [of vc th e] by simp
        ultimately show ?thesis
          using es1(1) es2(1) b1 b2 by (auto simp: phase_log_def body_append)
      next
        case None3: None
        obtain r3 t3 where e3: "exec env mesh_cmds t2 = (r3, t3)"
          by (cases "exec env mesh_cmds t2")
        from exec_phase_log [OF _ e3] plain_mesh obtain es3 where
          es3: "t3 = t2 @ es3" "phase_log (map_option MapdlError r3) es3"
          by blast
        show ?thesis
        proof (cases r3)
          case (Some c)
          with pre e1 None vl e2 None2 None3 e3 have "r = Some (MapdlError c)" "t' = t3"
            by (simp_all add: pre_processing_def)
          moreover have "phase_log (Some (MapdlError c)) ((es1 @ es2) @ es3)"
            using b1 b2 es3(2) Some by (simp only: phase_log_prepend body_append option.map)
          ultimately show ?thesis
            using es1(1) es2(1) es3(1) by simp
        next
          case None4: None
          then have b3: "body es3"
            using es3(2) by (simp add: phase_log_def)
          let ?e = "(Eplot png, respond env (map fst t3) (Eplot png))"
          from pre e1 None vl e2 None2 None3 e3 None4 have "r = None" "t' = t3 @ [?e]"
            by (simp_all add: pre_processing_def call_def split: resp.splits)
          moreover have "body (es1 @ es2 @ es3 @ [?e])"
            using b1 b2 b3 by (simp add: body_append body_render is_render_def)
          ultimately show ?thesis
            using es1(1) es2(1) es3(1) by (simp add: phase_log_def)
        qed
      qed
    qed
  qed
qed

text \<open>An exception that leaves section 4 and is not one of a call is the one of the loop.\<close>

lemma pre_processing_stop:
  assumes pre: "pre_processing env vc th png t = (Some e, t')"
  shows "(\<exists>c. e = MapdlError c) \<or> snd (vane_loop_cmds vc th) = Some e"
proof -
  obtain vanes stop where vl: "vane_loop_cmds vc th = (vanes, stop)"
    by (cases "vane_loop_cmds vc th")
  obtain r1 t1 where e1: "exec env model_setup_cmds t = (r1, t1)"
    by (cases "exec env model_setup_cmds t")
  obtain r2 t2 where e2: "exec env vanes t1 = (r2, t2)"
    by (cases "exec env vanes t1")
  obtain r3 t3 where e3: "exec env mesh_cmds t2 = (r3, t3)"
    by (cases "exec env mesh_cmds t2")
  show ?thesis
    using pre vl e1 e2 e3
    by (cases r1; cases r2; cases stop; cases r3; cases "respond env (map fst t3) (Eplot png)")
       (auto simp add: pre_processing_def call_def)
qed

lemma pre_processing_passed:
  assumes pre: "pre_processing env vc th png t = (None, t')"
  shows "snd (vane_loop_cmds vc th) = None"
proof -
  obtain vanes stop where vl: "vane_loop_cmds vc th = (vanes, stop)"
    by (cases "vane_loop_cmds vc th")
  obtain r1 t1 where e1: "exec env model_setup_cmds t = (r1, t1)"
    by (cases "exec env model_setup_cmds t")
  obtain r2 t2 where e2: "exec env vanes t1 = (r2, t2)"
    by (cases "exec env vanes t1")
  show ?thesis
    using pre vl e1 e2
    by (cases r1; cases r2; cases stop) (simp_all add: pre_processing_def)
qed

lemma solution_raised: "solution env hf t = (Some e, t') \<Longrightarrow> \<exists>c. e = MapdlError c"
  by (cases "exec env (load_select_cmds @ heat_and_cool_cmds hf) t")
     (auto simp: solution_def split: option.splits)

lemma solution_log:
  assumes sol: "solution env hf t = (r, t')"
  shows "\<exists>es. t' = t @ es \<and> phase_log r es"
proof -
  let ?cs = "load_select_cmds @ heat_and_cool_cmds hf"
  obtain r1 t1 where e1: "exec env ?cs t = (r1, t1)"
    by (cases "exec env ?cs t")
  have "\<forall>c\<in>set ?cs. plain c"
    using plain_load_select plain_heat_and_cool by auto
  from exec_phase_log [OF this e1] obtain es where
    es: "t1 = t @ es" "phase_log (map_option MapdlError r1) es"
    by blast
  from sol e1 have "r = map_option MapdlError r1" "t' = t1"
    by (cases r1; simp add: solution_def)+
  with es show ?thesis by simp
qed

lemma post_processing_cases [consumes 1, case_names Sort_raised Get_raised Extracted]:
  assumes pp: "post_processing env png t = (peak, t')"
  obtains
    n where "t' = t @ [(Run n, Raise)]" "peak = NaN"
  | n a where "t' = t @ [(Run n, Ok a), (Get_value_sort_max, Raise)]" "peak = NaN"
  | n a r where
      "t' = t @ [(Run n, Ok a), (Get_value_sort_max, Ok peak), (Plot_nodal_temperature png, r)]"
proof -
  let ?n = "''NSORT,TEMP,,1''"
  show thesis
  proof (cases "respond env (map fst t) (Run ?n)")
    case Raise
    with pp have "t' = t @ [(Run ?n, Raise)]" "peak = NaN"
      by (simp_all add: post_processing_def call_def)
    then show thesis by (rule that(1))
  next
    case (Ok a)
    let ?t1 = "t @ [(Run ?n, Ok a)]"
    show thesis
    proof (cases "respond env (map fst ?t1) Get_value_sort_max")
      case Raise
      with pp Ok have "t' = t @ [(Run ?n, Ok a), (Get_value_sort_max, Raise)]" "peak = NaN"
        by (simp_all add: post_processing_def call_def)
      then show thesis by (rule that(2))
    next
      case Ok2: (Ok x)
      let ?t2 = "?t1 @ [(Get_value_sort_max, Ok x)]"
      let ?r = "respond env (map fst ?t2) (Plot_nodal_temperature png)"
      from pp Ok Ok2 have "peak = x \<and>
          t' = t @ [(Run ?n, Ok a), (Get_value_sort_max, Ok x), (Plot_nodal_temperature png, ?r)]"
        by (cases ?r) (auto simp add: post_processing_def call_def)
      then show thesis using that(3) by blast
    qed
  qed
qed

lemma render_not_setup: "is_render c \<Longrightarrow> \<not> is_setup c \<and> c \<noteq> Exit_mapdl"
  by (cases c) (simp_all add: is_render_def is_setup_def)

lemma body_no_exit: "body es \<Longrightarrow> no_exit es"
  unfolding body_def no_exit_def
proof
  fix e
  assume b: "\<forall>e\<in>set es. plain (fst e) \<and> returned e \<or> is_render (fst e)" and e: "e \<in> set es"
  from b e have "plain (fst e) \<or> is_render (fst e)" by blast
  then show "fst e \<noteq> Exit_mapdl \<and> \<not> is_setup (fst e)"
    using render_not_setup [of "fst e"] by (auto simp: plain_def)
qed

lemma no_exit_append: "no_exit (a @ b) \<longleftrightarrow> no_exit a \<and> no_exit b"
  by (auto simp: no_exit_def)

lemma body_guarded: "body es \<Longrightarrow> e \<in> set es \<Longrightarrow> guarded (fst e) \<Longrightarrow> is_render (fst e)"
  by (auto simp: body_def plain_def)

lemma render_guarded: "is_render c \<Longrightarrow> guarded c"
  by (cases c) (simp_all add: is_render_def guarded_def)

lemma body_caught: "body es \<Longrightarrow> caught es"
  using render_guarded by (auto simp: body_def caught_def returned_def)

lemma caught_append: "caught (a @ b) \<longleftrightarrow> caught a \<and> caught b"
  by (auto simp: caught_def)

lemma caught_try:
  "caught [(Run n, r)]" "caught [(Get_value_sort_max, r)]" "caught [(Plot_nodal_temperature p, r)]"
  "caught [(c, Ok v)]"
  by (simp_all add: caught_def guarded_def)

lemma phase_log_Some:
  assumes "phase_log (Some e) es"
  obtains "e = TypeError \<or> e = OverflowError" "body es"
  | c es' where "e = MapdlError c" "es = es' @ [(c, Raise)]" "plain c" "body es'"
proof (cases e)
  case (MapdlError c)
  with assms have p: "plain c" "es \<noteq> []" "last es = (c, Raise)" "body (butlast es)"
    by (simp_all add: phase_log_def)
  then have "es = butlast es @ [(c, Raise)]"
    by (metis append_butlast_last_id)
  with MapdlError p show ?thesis
    using that(2) by blast
qed (use assms that(1) in \<open>simp_all add: phase_log_def\<close>)

lemma finish_cases [consumes 1, case_names Cmd_raised Sort_raised Get_raised Extracted]:
  assumes fin: "post_process_and_finish env run_id fdir t = (out, t')"
  obtains
    es c where "t' = t @ es @ [(c, Raise)]" "out = Raised (MapdlError c)"
      "\<not> guarded c" "\<not> is_setup c" "no_exit es" "caught es"
  | es n v where "t' = t @ es @ [(Run n, Raise), (Exit_mapdl, Ok v)]"
      "out = Returned (final_record run_id NaN (now env (map fst t')))" "body es"
  | es n a v where
      "t' = t @ es @ [(Run n, Ok a), (Get_value_sort_max, Raise), (Exit_mapdl, Ok v)]"
      "out = Returned (final_record run_id NaN (now env (map fst t')))" "body es"
  | es n a peak p r v where
      "t' = t @ es @ [(Run n, Ok a), (Get_value_sort_max, Ok peak),
                      (Plot_nodal_temperature p, r), (Exit_mapdl, Ok v)]"
      "out = Returned (final_record run_id peak (now env (map fst t')))" "body es"
proof -
  obtain r1 t1 where e1: "exec env post_setup_cmds t = (r1, t1)"
    by (cases "exec env post_setup_cmds t")
  from exec_phase_log [OF _ e1] plain_post_setup obtain es1 where
    es1: "t1 = t @ es1" "phase_log (map_option MapdlError r1) es1"
    by blast
  show thesis
  proof (cases r1)
    case (Some c)
    with fin e1 have o: "out = Raised (MapdlError c)" "t' = t1"
      by (simp_all add: post_process_and_finish_def)
    from es1(2) Some obtain es' where "es1 = es' @ [(c, Raise)]" "plain c" "body es'"
      by (auto elim: phase_log_Some)
    then show thesis
      using o es1(1) that(1) [of es' c] by (simp add: body_no_exit body_caught plain_def)
  next
    case None
    then have b1: "body es1"
      using es1(2) by (simp add: phase_log_def)
    obtain peak t2 where pp: "post_processing env (output_png_path fdir run_id) t1 = (peak, t2)"
      by (cases "post_processing env (output_png_path fdir run_id) t1")
    let ?r = "respond env (map fst t2) Exit_mapdl"
    let ?t3 = "t2 @ [(Exit_mapdl, ?r)]"
    have unfold: "(out, t') =
        (case ?r of Raise \<Rightarrow> (Raised (MapdlError Exit_mapdl), ?t3)
         | Ok _ \<Rightarrow> (Returned (final_record run_id peak (now env (map fst ?t3))), ?t3))"
      using fin e1 None pp
      by (cases ?r) (auto simp add: post_process_and_finish_def call_def)
    have ne: "\<not> guarded Exit_mapdl" "\<not> is_setup Exit_mapdl"
      by (simp_all add: guarded_def is_setup_def)
    from pp show thesis
    proof (cases rule: post_processing_cases)
      case (Sort_raised n)
      show thesis
      proof (cases ?r)
        case Raise
        with unfold have "out = Raised (MapdlError Exit_mapdl)"
          "t' = t @ (es1 @ [(Run n, Raise)]) @ [(Exit_mapdl, Raise)]"
          using Sort_raised es1(1) by simp_all
        moreover have "no_exit (es1 @ [(Run n, Raise)])"
          using b1 by (simp add: no_exit_append body_no_exit) (simp add: no_exit_def is_setup_def)
        moreover have "caught (es1 @ [(Run n, Raise)])"
          using b1 by (simp add: caught_append body_caught caught_try)
        ultimately show thesis
          using that(1) ne by blast
      next
        case (Ok v)
        with unfold have "t' = t @ es1 @ [(Run n, Raise), (Exit_mapdl, Ok v)]"
          "out = Returned (final_record run_id NaN (now env (map fst t')))"
          using Sort_raised es1(1) by simp_all
        then show thesis
          using that(2) b1 by blast
      qed
    next
      case (Get_raised n a)
      show thesis
      proof (cases ?r)
        case Raise
        with unfold have "out = Raised (MapdlError Exit_mapdl)"
          "t' = t @ (es1 @ [(Run n, Ok a), (Get_value_sort_max, Raise)]) @ [(Exit_mapdl, Raise)]"
          using Get_raised es1(1) by simp_all
        moreover have "no_exit (es1 @ [(Run n, Ok a), (Get_value_sort_max, Raise)])"
          using b1 by (simp add: no_exit_append body_no_exit) (simp add: no_exit_def is_setup_def)
        moreover have "caught (es1 @ [(Run n, Ok a), (Get_value_sort_max, Raise)])"
          using b1 by (simp add: caught_append body_caught) (simp add: caught_def guarded_def)
        ultimately show thesis
          using that(1) ne by blast
      next
        case (Ok v)
        with unfold have
          "t' = t @ es1 @ [(Run n, Ok a), (Get_value_sort_max, Raise), (Exit_mapdl, Ok v)]"
          "out = Returned (final_record run_id NaN (now env (map fst t')))"
          using Get_raised es1(1) by simp_all
        then show thesis
          using that(3) b1 by blast
      qed
    next
      case (Extracted n a r)
      let ?p = "output_png_path fdir run_id"
      show thesis
      proof (cases ?r)
        case Raise
        with unfold have "out = Raised (MapdlError Exit_mapdl)"
          "t' = t @ (es1 @ [(Run n, Ok a), (Get_value_sort_max, Ok peak),
                (Plot_nodal_temperature ?p, r)]) @ [(Exit_mapdl, Raise)]"
          using Extracted es1(1) by simp_all
        moreover have "no_exit (es1 @ [(Run n, Ok a), (Get_value_sort_max, Ok peak),
                (Plot_nodal_temperature ?p, r)])"
          using b1 by (simp add: no_exit_append body_no_exit) (simp add: no_exit_def is_setup_def)
        moreover have "caught (es1 @ [(Run n, Ok a), (Get_value_sort_max, Ok peak),
                (Plot_nodal_temperature ?p, r)])"
          using b1 by (simp add: caught_append body_caught) (simp add: caught_def guarded_def)
        ultimately show thesis
          using that(1) ne by blast
      next
        case (Ok v)
        with unfold have
          "t' = t @ es1 @ [(Run n, Ok a), (Get_value_sort_max, Ok peak),
                (Plot_nodal_temperature ?p, r), (Exit_mapdl, Ok v)]"
          "out = Returned (final_record run_id peak (now env (map fst t')))"
          using Extracted es1(1) by simp_all
        then show thesis
          using that(4) b1 by blast
      qed
    qed
  qed
qed

lemma simulate_cases [consumes 1, case_names Cmd_raised Type_error Sort_raised Get_raised Extracted]:
  assumes sim: "simulate env run_id vc th hf fdir t = (out, t')"
  obtains
    es c where "t' = t @ es @ [(c, Raise)]" "out = Raised (MapdlError c)"
      "\<not> guarded c" "\<not> is_setup c" "no_exit es" "caught es"
  | es e where "t' = t @ es" "out = Raised e" "body es" "e = TypeError \<or> e = OverflowError"
      "snd (vane_loop_cmds vc th) = Some e"
  | es n v where "t' = t @ es @ [(Run n, Raise), (Exit_mapdl, Ok v)]"
      "out = Returned (final_record run_id NaN (now env (map fst t')))" "body es"
  | es n a v where
      "t' = t @ es @ [(Run n, Ok a), (Get_value_sort_max, Raise), (Exit_mapdl, Ok v)]"
      "out = Returned (final_record run_id NaN (now env (map fst t')))" "body es"
  | es n a peak p r v where
      "t' = t @ es @ [(Run n, Ok a), (Get_value_sort_max, Ok peak),
                      (Plot_nodal_temperature p, r), (Exit_mapdl, Ok v)]"
      "out = Returned (final_record run_id peak (now env (map fst t')))" "body es"
proof -
  let ?png = "input_png_path fdir run_id"
  obtain r1 t1 where p1: "pre_processing env vc th ?png t = (r1, t1)"
    by (cases "pre_processing env vc th ?png t")
  from pre_processing_log [OF p1] obtain es1 where
    es1: "t1 = t @ es1" "phase_log r1 es1"
    by (elim exE conjE)
  show thesis
  proof (cases r1)
    case (Some e)
    with sim p1 have o: "out = Raised e" "t' = t1"
      by (simp_all add: simulate_def)
    from es1(2) [unfolded Some] show thesis
    proof (cases rule: phase_log_Some)
      case 1
      have "snd (vane_loop_cmds vc th) = Some e"
        using pre_processing_stop [OF p1 [unfolded Some]] 1(1) by auto
      with 1 show thesis
        using o es1(1) that(2) [of es1 e] by simp
    next
      case (2 c es')
      have "t' = t @ es' @ [(c, Raise)]"
        using o es1(1) 2(2) by simp
      moreover have "\<not> guarded c" "\<not> is_setup c"
        using 2(3) by (simp_all add: plain_def)
      ultimately show thesis
        using that(1) [of es' c] o(1) 2(1) body_no_exit [OF 2(4)] body_caught [OF 2(4)] by simp
    qed
  next
    case None
    then have b1: "body es1"
      using es1(2) by (simp add: phase_log_def)
    obtain r2 t2 where p2: "solution env hf t1 = (r2, t2)"
      by (cases "solution env hf t1")
    from solution_log [OF p2] obtain es2 where
      es2: "t2 = t1 @ es2" "phase_log r2 es2"
      by (elim exE conjE)
    show thesis
    proof (cases r2)
      case (Some e)
      with sim p1 None p2 have o: "out = Raised e" "t' = t2"
        by (simp_all add: simulate_def)
      from es2(2) [unfolded Some] show thesis
      proof (cases rule: phase_log_Some)
        case 1
        with solution_raised [OF p2 [unfolded Some]] show thesis
          by auto
      next
        case (2 c es')
        have "t' = t @ (es1 @ es') @ [(c, Raise)]"
          using o es1(1) es2(1) 2(2) by simp
        moreover have "\<not> guarded c" "\<not> is_setup c"
          using 2(3) by (simp_all add: plain_def)
        moreover have "no_exit (es1 @ es')"
          using b1 2(4) by (simp add: no_exit_append body_no_exit)
        moreover have "caught (es1 @ es')"
          using b1 2(4) by (simp add: caught_append body_caught)
        ultimately show thesis
          using that(1) [of "es1 @ es'" c] o(1) 2(1) by simp
      qed
    next
      case None2: None
      then have b2: "body es2"
        using es2(2) by (simp add: phase_log_def)
      have b12: "body (es1 @ es2)"
        using b1 b2 by (simp add: body_append)
      have t2: "t2 = t @ (es1 @ es2)"
        using es1(1) es2(1) by simp
      from sim p1 None p2 None2 have
        fin: "post_process_and_finish env run_id fdir t2 = (out, t')"
        by (simp add: simulate_def)
      from fin show thesis
      proof (cases rule: finish_cases)
        case (Cmd_raised es c)
        have "t' = t @ (es1 @ es2 @ es) @ [(c, Raise)]"
          using Cmd_raised(1) t2 by simp
        moreover have "no_exit (es1 @ es2 @ es)"
          using b1 b2 Cmd_raised(5) by (simp add: no_exit_append body_no_exit)
        moreover have "caught (es1 @ es2 @ es)"
          using b1 b2 Cmd_raised(6) by (simp add: caught_append body_caught)
        ultimately show thesis
          using that(1) [of "es1 @ es2 @ es" c] Cmd_raised(2,3,4) by simp
      next
        case (Sort_raised es n v)
        have "t' = t @ (es1 @ es2 @ es) @ [(Run n, Raise), (Exit_mapdl, Ok v)]"
          using Sort_raised(1) t2 by simp
        moreover have "body (es1 @ es2 @ es)"
          using b1 b2 Sort_raised(3) by (simp add: body_append)
        ultimately show thesis
          using that(3) [of "es1 @ es2 @ es" n v] Sort_raised(2) by simp
      next
        case (Get_raised es n a v)
        have "t' = t @ (es1 @ es2 @ es) @
            [(Run n, Ok a), (Get_value_sort_max, Raise), (Exit_mapdl, Ok v)]"
          using Get_raised(1) t2 by simp
        moreover have "body (es1 @ es2 @ es)"
          using b1 b2 Get_raised(3) by (simp add: body_append)
        ultimately show thesis
          using that(4) [of "es1 @ es2 @ es" n a v] Get_raised(2) by simp
      next
        case (Extracted es n a peak p r v)
        have "t' = t @ (es1 @ es2 @ es) @
            [(Run n, Ok a), (Get_value_sort_max, Ok peak),
             (Plot_nodal_temperature p, r), (Exit_mapdl, Ok v)]"
          using Extracted(1) t2 by simp
        moreover have "body (es1 @ es2 @ es)"
          using b1 b2 Extracted(3) by (simp add: body_append)
        ultimately show thesis
          using that(5) [of "es1 @ es2 @ es" n a peak p r v] Extracted(2) by simp
      qed
    qed
  qed
qed

section \<open>The log of a run of the driver\<close>

lemma read_params_cases [consumes 1, case_names Key_error Simulated]:
  assumes "read_params_and_simulate env run_id params fdir t = (out, t')"
  obtains
    k where "out = Raised (KeyError k)" "t' = t" "params k = None"
      "k \<in> {''vane_count'', ''vane_thickness_deg'', ''heat_flux''}"
  | vc th hf where "params ''vane_count'' = Some vc" "params ''vane_thickness_deg'' = Some th"
      "params ''heat_flux'' = Some hf" "simulate env run_id vc th hf fdir t = (out, t')"
  using assms
  by (auto simp: read_params_and_simulate_def split: option.splits)

lemma run_cases [consumes 1, case_names Makedirs_raised Launch_failed Key_error Simulated]:
  assumes run: "run_single_simulation env run_id params bdir fdir = (out, t')"
  obtains
    "t' = [(Makedirs (simulation_path bdir run_id), Raise)]" "out = Raised OSError"
  | d where "t' = d @ [(Launch_mapdl (simulation_path bdir run_id) jobname True, Raise)]"
      "out = Returned (launch_failed_record (now env (map fst t')))" "dir_made d"
  | d v k where "t' = d @ [(Launch_mapdl (simulation_path bdir run_id) jobname True, Ok v)]"
      "out = Raised (KeyError k)" "params k = None"
      "k \<in> {''vane_count'', ''vane_thickness_deg'', ''heat_flux''}" "dir_made d"
  | d v vc th hf where "dir_made d"
      "params ''vane_count'' = Some vc" "params ''vane_thickness_deg'' = Some th"
      "params ''heat_flux'' = Some hf"
      "simulate env run_id vc th hf fdir
         (d @ [(Launch_mapdl (simulation_path bdir run_id) jobname True, Ok v)]) = (out, t')"
proof -
  let ?p = "simulation_path bdir run_id"
  let ?l = "Launch_mapdl ?p jobname True"
  let ?cs = "if \<not> path_exists env ?p then [Makedirs ?p] else []"
  obtain r0 d where e0: "exec env ?cs [] = (r0, d)"
    by (cases "exec env ?cs []")
  show thesis
  proof (cases r0)
    case (Some c)
    with run e0 have o: "out = Raised OSError" "t' = d"
      by (simp_all add: run_single_simulation_def Let_def)
    from e0 Some have "d = [(Makedirs ?p, Raise)]"
      by (cases "path_exists env ?p"; cases "respond env [] (Makedirs ?p)")
         (simp_all add: call_def)
    with o show thesis
      using that(1) by simp
  next
    case None
    have dm: "dir_made d"
      using e0 None
      by (cases "path_exists env ?p"; cases "respond env [] (Makedirs ?p)")
         (auto simp: call_def dir_made_def returned_def)
    show thesis
    proof (cases "respond env (map fst d) ?l")
      case Raise
      with run e0 None have "t' = d @ [(?l, Raise)]"
        "out = Returned (launch_failed_record (now env (map fst t')))"
        by (auto simp: run_single_simulation_def Let_def call_def)
      then show thesis
        using that(2) dm by blast
    next
      case (Ok v)
      with run e0 None have
        rp: "read_params_and_simulate env run_id params fdir (d @ [(?l, Ok v)]) = (out, t')"
        by (simp add: run_single_simulation_def Let_def call_def)
      from rp show thesis
      proof (cases rule: read_params_cases)
        case (Key_error k)
        then show thesis
          using that(3) [of d v k] dm by simp
      next
        case (Simulated vc th hf)
        then show thesis
          using that(4) [of d vc th hf v] dm by simp
      qed
    qed
  qed
qed

lemma dir_made_no_exit: "dir_made d \<Longrightarrow> \<forall>e\<in>set d. fst e \<noteq> Exit_mapdl \<and> \<not> guarded (fst e) \<and> returned e \<and> \<not> is_launch (fst e)"
proof
  fix e
  assume d: "dir_made d" and e: "e \<in> set d"
  then have c: "(case fst e of Makedirs _ \<Rightarrow> True | _ \<Rightarrow> False)" and r: "returned e"
    by (simp_all add: dir_made_def)
  from c have "fst e \<noteq> Exit_mapdl \<and> \<not> guarded (fst e) \<and> \<not> is_launch (fst e)"
    by (cases "fst e") (simp_all add: guarded_def is_launch_def)
  with r show "fst e \<noteq> Exit_mapdl \<and> \<not> guarded (fst e) \<and> returned e \<and> \<not> is_launch (fst e)"
    by simp
qed

lemma body_no_run: "body es \<Longrightarrow> (Run n, r) \<notin> set es"
  by (auto simp: body_def plain_def guarded_def is_render_def)

lemma body_no_get: "body es \<Longrightarrow> (Get_value_sort_max, r) \<notin> set es"
  by (auto simp: body_def plain_def guarded_def is_render_def)

lemma body_no_exit_event: "body es \<Longrightarrow> (Exit_mapdl, r) \<notin> set es"
  by (auto simp: body_def plain_def guarded_def is_render_def)

lemma no_exit_event: "no_exit es \<Longrightarrow> (Exit_mapdl, r) \<notin> set es"
  by (auto simp: no_exit_def)

lemma no_exit_setup: "no_exit es \<Longrightarrow> e \<in> set es \<Longrightarrow> \<not> is_setup (fst e)"
  by (auto simp: no_exit_def)

lemma launch_is_setup: "is_launch c \<Longrightarrow> is_setup c"
  by (cases c) (simp_all add: is_launch_def is_setup_def)

lemma simulate_appends:
  assumes sim: "simulate env run_id vc th hf fdir t = (out, t')"
  obtains es where "t' = t @ es" "\<forall>e\<in>set es. \<not> is_setup (fst e)"
  using sim
proof (cases rule: simulate_cases)
  case (Cmd_raised es c)
  have "\<forall>e\<in>set (es @ [(c, Raise)]). \<not> is_setup (fst e)"
    using Cmd_raised(4,5) by (auto simp: no_exit_def)
  then show thesis using that [of "es @ [(c, Raise)]"] Cmd_raised(1) by simp
next
  case (Type_error es e)
  then show thesis using that [of es] body_no_exit [of es] by (simp add: no_exit_def)
next
  case (Sort_raised es n v)
  have "\<forall>e\<in>set (es @ [(Run n, Raise), (Exit_mapdl, Ok v)]). \<not> is_setup (fst e)"
    using body_no_exit [OF Sort_raised(3)] by (auto simp: no_exit_def is_setup_def)
  then show thesis using that Sort_raised(1) by blast
next
  case (Get_raised es n a v)
  have "\<forall>e\<in>set (es @ [(Run n, Ok a), (Get_value_sort_max, Raise), (Exit_mapdl, Ok v)]).
      \<not> is_setup (fst e)"
    using body_no_exit [OF Get_raised(3)] by (auto simp: no_exit_def is_setup_def)
  then show thesis using that Get_raised(1) by blast
next
  case (Extracted es n a peak p r v)
  have "\<forall>e\<in>set (es @ [(Run n, Ok a), (Get_value_sort_max, Ok peak),
      (Plot_nodal_temperature p, r), (Exit_mapdl, Ok v)]). \<not> is_setup (fst e)"
    using body_no_exit [OF Extracted(3)] by (auto simp: no_exit_def is_setup_def)
  then show thesis using that Extracted(1) by blast
qed

lemma final_record_fields:
  "final_record run_id peak ts ''status'' =
     Some (VStr (if peak = NaN then ''post_processing_failed'' else ''success''))"
  "final_record run_id peak ts ''peak_temp'' = Some (VFloat peak)"
  "final_record run_id peak ts ''run_id'' = Some (VInt run_id)"
  "final_record run_id peak ts ''timestamp'' = Some (VStr ts)"
  by (simp_all add: final_record_def isnan_def)

lemma launch_failed_record_fields:
  "launch_failed_record ts ''status'' = Some (VStr ''launch_failed'')"
  "launch_failed_record ts ''peak_temp'' = Some (VFloat NaN)"
  "launch_failed_record ts ''run_id'' = None"
  "launch_failed_record ts ''timestamp'' = Some (VStr ts)"
  by (simp_all add: launch_failed_record_def)

lemma dir_made_setup: "dir_made d \<Longrightarrow> e \<in> set d \<Longrightarrow> is_setup (fst e) \<and> \<not> is_launch (fst e)"
proof -
  assume "dir_made d" "e \<in> set d"
  then have "(case fst e of Makedirs _ \<Rightarrow> True | _ \<Rightarrow> False)"
    by (simp add: dir_made_def)
  then show ?thesis
    by (cases "fst e") (simp_all add: is_setup_def is_launch_def)
qed

lemma launch_raised_cases:
  assumes run: "run_single_simulation env run_id params bdir fdir = (out, t)"
    and l: "is_launch c" and r: "raised_in t c"
  shows "out = Returned (launch_failed_record (now env (map fst t))) \<and> only_setup t"
  using run
proof (cases rule: run_cases)
  case Makedirs_raised
  with l r show ?thesis
    by (auto simp: raised_in_def is_launch_def)
next
  case (Launch_failed d)
  have "only_setup t"
    using Launch_failed(1,3) dir_made_setup [of d]
    by (auto simp: only_setup_def list_all_iff is_setup_def)
  with Launch_failed(2) show ?thesis by simp
next
  case (Key_error d v k)
  with l r dir_made_setup [of d "(c, Raise)"] show ?thesis
    by (auto simp: raised_in_def)
next
  case (Simulated d v vc th hf)
  from Simulated(5) obtain es where
    es: "t = (d @ [(Launch_mapdl (simulation_path bdir run_id) jobname True, Ok v)]) @ es"
      "\<forall>e\<in>set es. \<not> is_setup (fst e)"
    by (rule simulate_appends)
  from r have "(c, Raise) \<in> set t" by (simp add: raised_in_def)
  with es(1) consider "(c, Raise) \<in> set d" | "(c, Raise) \<in> set es"
    by auto
  then show ?thesis
  proof cases
    case 1
    with dir_made_setup [OF Simulated(1), of "(c, Raise)"] l show ?thesis by simp
  next
    case 2
    with es(2) launch_is_setup [OF l] show ?thesis by auto
  qed
qed

section \<open>Runs in an environment that ignores the history\<close>

lemma const_env_simps [simp]:
  "respond (const_env f) h c = f c"
  "path_exists (const_env f) p = False"
  "now (const_env f) h = ''2025-01-01 12:00:00''"
  by (simp_all add: const_env_def)

lemma exec_const_ok:
  "\<forall>c\<in>set cs. f c \<noteq> Raise \<Longrightarrow>
   exec (const_env f) cs t = (None, t @ map (\<lambda>c. (c, f c)) cs)"
proof (induction cs arbitrary: t)
  case Nil
  show ?case by simp
next
  case (Cons c cs)
  then obtain v where v: "f c = Ok v"
    by (cases "f c") simp_all
  have "exec (const_env f) (c # cs) t = exec (const_env f) cs (t @ [(c, Ok v)])"
    by (rule exec_Cons_Ok) (simp add: v)
  also have "\<dots> = (None, (t @ [(c, Ok v)]) @ map (\<lambda>c. (c, f c)) cs)"
    by (rule Cons.IH) (use Cons.prems in simp)
  finally show ?case by (simp add: v)
qed

lemma fst_exec_const: "fst (exec (const_env f) cs t) = find (\<lambda>c. f c = Raise) cs"
proof (induction cs arbitrary: t)
  case Nil
  show ?case by simp
next
  case (Cons c cs)
  show ?case
  proof (cases "f c")
    case Raise
    then have "exec (const_env f) (c # cs) t = (Some c, t @ [(c, Raise)])"
      by (intro exec_Cons_Raise) simp
    with Raise show ?thesis by simp
  next
    case (Ok v)
    then have "exec (const_env f) (c # cs) t = exec (const_env f) cs (t @ [(c, Ok v)])"
      by (intro exec_Cons_Ok) simp
    with Ok Cons.IH show ?thesis by simp
  qed
qed

lemma find_append_skip: "\<forall>c\<in>set xs. \<not> P c \<Longrightarrow> find P (xs @ ys) = find P ys"
  by (induction xs) simp_all


lemma float_limit_positive: "1000 < float_limit"
  by (simp add: float_limit_def)

lemma vane_iterations_None:
  assumes "\<forall>i\<in>set is. int i < float_limit" and "as_float th = Inr x"
  shows "snd (vane_iterations n th is) = None"
  using assms(1)
proof (induction "is")
  case Nil
  show ?case by simp
next
  case (Cons i "is")
  then have "int i < float_limit" "snd (vane_iterations n th is) = None"
    by simp_all
  then show ?case
    using assms(2)
    by (cases "vane_iterations n th is") (simp add: vane_cmds_def float_of_int_def Let_def)
qed

lemma time_test_vane_loop: "snd (vane_loop_cmds (VInt 54) (VFloat (Num 2.5))) = None"
proof -
  have "\<forall>i\<in>set (py_range 54). int i < float_limit"
    using float_limit_positive by (auto simp: py_range_def)
  then show ?thesis
    by (simp add: vane_loop_cmds_def vane_iterations_None [where x = "Num 2.5"])
qed

lemma pre_processing_const_ok:
  assumes v: "\<forall>c. is_vane_cmd c \<longrightarrow> f c \<noteq> Raise"
    and m: "\<forall>c\<in>set model_setup_cmds. f c \<noteq> Raise"
    and s: "\<forall>c\<in>set mesh_cmds. f c \<noteq> Raise"
    and l: "snd (vane_loop_cmds vc th) = None"
  shows "pre_processing (const_env f) vc th png t =
     (None, t @ map (\<lambda>c. (c, f c)) (model_setup_cmds @ fst (vane_loop_cmds vc th) @ mesh_cmds) @
            [(Eplot png, f (Eplot png))])"
proof -
  obtain vanes where vl: "vane_loop_cmds vc th = (vanes, None)"
    using l by (cases "vane_loop_cmds vc th") simp
  have "\<forall>c\<in>set vanes. f c \<noteq> Raise"
    using v vane_loop_shape [of _ vc th] vl by simp
  then show ?thesis
    using m s vl by (cases "f (Eplot png)") (simp_all add: pre_processing_def exec_const_ok call_def)
qed

lemma fst_pre_processing_const:
  "fst (pre_processing (const_env f) vc th png t) =
     (case find (\<lambda>c. f c = Raise) model_setup_cmds of
        Some c \<Rightarrow> Some (MapdlError c)
      | None \<Rightarrow>
          (case find (\<lambda>c. f c = Raise) (fst (vane_loop_cmds vc th)) of
             Some c \<Rightarrow> Some (MapdlError c)
           | None \<Rightarrow>
               (case snd (vane_loop_cmds vc th) of
                  Some e \<Rightarrow> Some e
                | None \<Rightarrow> map_option MapdlError (find (\<lambda>c. f c = Raise) mesh_cmds))))"
proof -
  obtain vanes stop where vl: "vane_loop_cmds vc th = (vanes, stop)"
    by (cases "vane_loop_cmds vc th")
  obtain r1 t1 where e1: "exec (const_env f) model_setup_cmds t = (r1, t1)"
    by (cases "exec (const_env f) model_setup_cmds t")
  then have r1: "find (\<lambda>c. f c = Raise) model_setup_cmds = r1"
    using fst_exec_const [of f model_setup_cmds t] by simp
  obtain r2 t2 where e2: "exec (const_env f) vanes t1 = (r2, t2)"
    by (cases "exec (const_env f) vanes t1")
  then have r2: "find (\<lambda>c. f c = Raise) vanes = r2"
    using fst_exec_const [of f vanes t1] by simp
  obtain r3 t3 where e3: "exec (const_env f) mesh_cmds t2 = (r3, t3)"
    by (cases "exec (const_env f) mesh_cmds t2")
  then have r3: "find (\<lambda>c. f c = Raise) mesh_cmds = r3"
    using fst_exec_const [of f mesh_cmds t2] by simp
  show ?thesis
    using vl e1 r1 e2 r2 e3 r3
    by (cases r1; cases r2; cases stop; cases r3; cases "f (Eplot png)")
       (simp_all add: pre_processing_def call_def)
qed

lemma solution_const_ok:
  "\<forall>c\<in>set (load_select_cmds @ heat_and_cool_cmds hf). f c \<noteq> Raise \<Longrightarrow>
   solution (const_env f) hf t =
     (None, t @ map (\<lambda>c. (c, f c)) (load_select_cmds @ heat_and_cool_cmds hf))"
  by (simp add: solution_def exec_const_ok)

lemma fst_solution_const:
  "fst (solution (const_env f) hf t) =
     map_option MapdlError (find (\<lambda>c. f c = Raise) (load_select_cmds @ heat_and_cool_cmds hf))"
proof -
  let ?cs = "load_select_cmds @ heat_and_cool_cmds hf"
  obtain r1 t1 where e1: "exec (const_env f) ?cs t = (r1, t1)"
    by (cases "exec (const_env f) ?cs t")
  then have "find (\<lambda>c. f c = Raise) ?cs = r1"
    using fst_exec_const [of f ?cs t] by simp
  with e1 show ?thesis
    by (cases r1) (simp_all add: solution_def)
qed

lemma simulate_pre_raised:
  "fst (pre_processing env vc th (input_png_path fdir run_id) t) = Some e \<Longrightarrow>
   fst (simulate env run_id vc th hf fdir t) = Raised e"
  by (cases "pre_processing env vc th (input_png_path fdir run_id) t") (simp add: simulate_def)

lemma simulate_solution_raised:
  "pre_processing env vc th (input_png_path fdir run_id) t = (None, t1) \<Longrightarrow>
   fst (solution env hf t1) = Some e \<Longrightarrow>
   fst (simulate env run_id vc th hf fdir t) = Raised e"
  by (cases "solution env hf t1") (simp add: simulate_def)

lemma simulate_finish:
  "pre_processing env vc th (input_png_path fdir run_id) t = (None, t1) \<Longrightarrow>
   solution env hf t1 = (None, t2) \<Longrightarrow>
   simulate env run_id vc th hf fdir t = post_process_and_finish env run_id fdir t2"
  by (simp add: simulate_def)

lemma time_test_run_const:
  assumes "f (Makedirs (simulation_path BASE_RUN_DIR 1)) = Ok a"
    and "f (Launch_mapdl (simulation_path BASE_RUN_DIR 1) jobname True) = Ok b"
  shows "time_test_run (const_env f) =
     simulate (const_env f) 1 (VInt 54) (VFloat (Num 2.5)) (VFloat (Num 1900000)) FINAL_IMAGE_DIR
       [(Makedirs (simulation_path BASE_RUN_DIR 1), Ok a),
        (Launch_mapdl (simulation_path BASE_RUN_DIR 1) jobname True, Ok b)]"
  using assms
  by (simp add: time_test_run_def run_single_simulation_def Let_def call_def
      read_params_and_simulate_def time_test_params_def)

lemma launched_append: "launched (a @ b) \<longleftrightarrow> launched a \<or> launched b"
  by (simp add: launched_def)

lemma vane_cmd_not_guarded: "is_vane_cmd c \<Longrightarrow> \<not> guarded c"
  by (cases c) (simp_all add: is_vane_cmd_def guarded_def)

lemma time_test_run_finish:
  assumes A: "\<forall>c. f c = Raise \<longrightarrow> guarded c \<and> \<not> is_launch c"
  obtains t2 where
    "time_test_run (const_env f) = post_process_and_finish (const_env f) 1 FINAL_IMAGE_DIR t2"
    "launched t2"
proof -
  let ?p = "simulation_path BASE_RUN_DIR 1"
  let ?hf = "VFloat (Num 1900000)"
  have "f (Makedirs ?p) \<noteq> Raise" "f (Launch_mapdl ?p jobname True) \<noteq> Raise"
    using A by (auto simp: guarded_def is_launch_def)
  then obtain a b where ab: "f (Makedirs ?p) = Ok a" "f (Launch_mapdl ?p jobname True) = Ok b"
    by (cases "f (Makedirs ?p)"; cases "f (Launch_mapdl ?p jobname True)") simp_all
  let ?t0 = "[(Makedirs ?p, Ok a), (Launch_mapdl ?p jobname True, Ok b)]"
  let ?vanes = "fst (vane_loop_cmds (VInt 54) (VFloat (Num 2.5)))"
  note l = time_test_vane_loop
  have v: "\<forall>c. is_vane_cmd c \<longrightarrow> f c \<noteq> Raise"
    using A vane_cmd_not_guarded by blast
  have m: "\<forall>c\<in>set model_setup_cmds. f c \<noteq> Raise"
    using A plain_model_setup by (auto simp: plain_def)
  have s: "\<forall>c\<in>set mesh_cmds. f c \<noteq> Raise"
    using A plain_mesh by (auto simp: plain_def)
  have h: "\<forall>c\<in>set (load_select_cmds @ heat_and_cool_cmds ?hf). f c \<noteq> Raise"
    using A plain_load_select plain_heat_and_cool [of _ ?hf] by (auto simp: plain_def)
  let ?t1 = "?t0 @ map (\<lambda>c. (c, f c)) (model_setup_cmds @ ?vanes @ mesh_cmds) @
      [(Eplot (input_png_path FINAL_IMAGE_DIR 1), f (Eplot (input_png_path FINAL_IMAGE_DIR 1)))]"
  let ?t2 = "?t1 @ map (\<lambda>c. (c, f c)) (load_select_cmds @ heat_and_cool_cmds ?hf)"
  have p: "pre_processing (const_env f) (VInt 54) (VFloat (Num 2.5))
      (input_png_path FINAL_IMAGE_DIR 1) ?t0 = (None, ?t1)"
    by (rule pre_processing_const_ok [OF v m s l])
  have q: "solution (const_env f) ?hf ?t1 = (None, ?t2)"
    by (rule solution_const_ok [OF h])
  have "launched ?t0"
    by (simp add: launched_def is_launch_def returned_def)
  then have "launched ?t2"
    by (simp only: launched_append) simp
  moreover have "time_test_run (const_env f) =
      post_process_and_finish (const_env f) 1 FINAL_IMAGE_DIR ?t2"
    by (simp only: time_test_run_const [OF ab] simulate_finish [OF p q])
  ultimately show thesis
    using that by blast
qed

lemma dir_made_event: "dir_made d \<Longrightarrow> (c, r) \<in> set d \<Longrightarrow> is_setup c \<and> \<not> is_launch c"
  using dir_made_setup [of d "(c, r)"] by simp

lemma launched_setup: "launched t \<Longrightarrow> \<exists>e\<in>set t. is_setup (fst e) \<and> is_launch (fst e)"
proof -
  assume "launched t"
  then obtain e where "e \<in> set (filter (\<lambda>e. is_launch (fst e) \<and> returned e) t)"
    unfolding launched_def by (cases "filter (\<lambda>e. is_launch (fst e) \<and> returned e) t") auto
  then show ?thesis
    using launch_is_setup by auto
qed

lemma returned_cases [consumes 1, case_names Launch_failed Finished]:
  assumes run: "run_single_simulation env run_id params bdir fdir = (Returned r, t)"
  obtains
    ts where "r = launch_failed_record ts" "only_setup t" "\<not> launched t"
  | peak ts v t0 where "r = final_record run_id peak ts" "t = t0 @ [(Exit_mapdl, Ok v)]"
      "launched t"
      "raised_in t (Run ''NSORT,TEMP,,1'') \<or> raised_in t Get_value_sort_max \<longrightarrow> peak = NaN"
      "\<forall>x. (Get_value_sort_max, Ok x) \<in> set t \<longrightarrow> peak = x"
  using run
proof (cases rule: run_cases)
  case Makedirs_raised
  then show thesis by simp
next
  case (Launch_failed d)
  have "only_setup t"
    using Launch_failed(1,3) dir_made_setup [of d]
    by (auto simp: only_setup_def list_all_iff is_setup_def)
  moreover have "\<not> launched t"
    using Launch_failed(1,3) dir_made_setup [of d]
    by (auto simp: launched_def filter_empty_conv returned_def)
  ultimately show thesis
    using that(1) Launch_failed(2) by blast
next
  case (Key_error d v k)
  then show thesis by simp
next
  case (Simulated d v0 vc th hf)
  let ?l = "Launch_mapdl (simulation_path bdir run_id) jobname True"
  let ?t0 = "d @ [(?l, Ok v0)]"
  have l0: "launched ?t0"
    by (simp add: launched_def is_launch_def returned_def)
  have d0: "(c, x) \<in> set ?t0 \<Longrightarrow> is_setup c" for c x
    using dir_made_event [OF Simulated(1)] by (auto simp: is_setup_def)
  have nr: "(Run n, x) \<notin> set ?t0" "(Get_value_sort_max, x) \<notin> set ?t0" for n x
    using d0 [of "Run n" x] d0 [of Get_value_sort_max x] by (auto simp: is_setup_def)
  from Simulated(5) show thesis
  proof (cases rule: simulate_cases)
    case (Cmd_raised es c)
    then show thesis by simp
  next
    case (Type_error es e)
    then show thesis by simp
  next
    case (Sort_raised es n v)
    have "t = (?t0 @ es @ [(Run n, Raise)]) @ [(Exit_mapdl, Ok v)]"
      using Sort_raised(1) by simp
    moreover have "launched t"
      using Sort_raised(1) l0 by (simp only: launched_append) simp
    moreover have "\<forall>x. (Get_value_sort_max, Ok x) \<in> set t \<longrightarrow> NaN = x"
      using Sort_raised(1) nr body_no_get [OF Sort_raised(3)] by auto
    ultimately show thesis
      using that(2) [of NaN _ _ v] Sort_raised(2) by blast
  next
    case (Get_raised es n a v)
    have "t = (?t0 @ es @ [(Run n, Ok a), (Get_value_sort_max, Raise)]) @ [(Exit_mapdl, Ok v)]"
      using Get_raised(1) by simp
    moreover have "launched t"
      using Get_raised(1) l0 by (simp only: launched_append) simp
    moreover have "\<forall>x. (Get_value_sort_max, Ok x) \<in> set t \<longrightarrow> NaN = x"
      using Get_raised(1) nr body_no_get [OF Get_raised(3)] by auto
    ultimately show thesis
      using that(2) [of NaN _ _ v] Get_raised(2) by blast
  next
    case (Extracted es n a peak p x v)
    have "t = (?t0 @ es @ [(Run n, Ok a), (Get_value_sort_max, Ok peak),
        (Plot_nodal_temperature p, x)]) @ [(Exit_mapdl, Ok v)]"
      using Extracted(1) by simp
    moreover have "launched t"
      using Extracted(1) l0 by (simp only: launched_append) simp
    moreover have "\<forall>y. (Get_value_sort_max, Ok y) \<in> set t \<longrightarrow> peak = y"
      using Extracted(1) nr body_no_get [OF Extracted(3)] by auto
    moreover have "raised_in t (Run ''NSORT,TEMP,,1'') \<or> raised_in t Get_value_sort_max
        \<longrightarrow> peak = NaN"
      using Extracted(1) nr body_no_get [OF Extracted(3)] body_no_run [OF Extracted(3)]
      by (auto simp: raised_in_def)
    ultimately show thesis
      using that(2) [of peak _ _ v] Extracted(2) by blast
  qed
qed

section \<open>Paths\<close>

lemma simulation_dir_name_inj: "simulation_dir_name a = simulation_dir_name b \<longleftrightarrow> a = b"
  by (simp add: simulation_dir_name_def format_04d_inj)

lemma input_png_name_inj: "input_png_name a = input_png_name b \<longleftrightarrow> a = b"
  by (simp add: input_png_name_def format_04d_inj)

lemma output_png_name_inj: "output_png_name a = output_png_name b \<longleftrightarrow> a = b"
  by (simp add: output_png_name_def format_04d_inj)

lemma path_join_inj:
  assumes "b \<noteq> []" "hd b \<noteq> CHR ''/''" "b' \<noteq> []" "hd b' \<noteq> CHR ''/''"
  shows "path_join a b = path_join a b' \<longleftrightarrow> b = b'"
  using assms by (simp add: path_join_name)

text \<open>
  Claim C8. The run directory and the two image files are functions of the run identifier
  (and of the directory they lie in), and distinct run identifiers give distinct run
  directories, distinct input image files and distinct output image files, as names and
  as paths; nor does an input image ever share its path with an output image.
\<close>

theorem run_id_paths_injective:
  "(simulation_path base_run_dir a = simulation_path base_run_dir b \<longleftrightarrow> a = b) \<and>
   (input_png_path final_image_dir a = input_png_path final_image_dir b \<longleftrightarrow> a = b) \<and>
   (output_png_path final_image_dir a = output_png_path final_image_dir b \<longleftrightarrow> a = b) \<and>
   (input_png_name a = input_png_name b \<longleftrightarrow> a = b) \<and>
   (output_png_name a = output_png_name b \<longleftrightarrow> a = b) \<and>
   input_png_path final_image_dir a \<noteq> output_png_path final_image_dir b"
proof -
  have d: "simulation_dir_name x \<noteq> [] \<and> hd (simulation_dir_name x) \<noteq> CHR ''/''" for x
    by (simp add: simulation_dir_name_def)
  have i: "input_png_name x \<noteq> [] \<and> hd (input_png_name x) \<noteq> CHR ''/''" for x
    by (simp add: input_png_name_def)
  have o: "output_png_name x \<noteq> [] \<and> hd (output_png_name x) \<noteq> CHR ''/''" for x
    by (simp add: output_png_name_def)
  have io: "input_png_name a \<noteq> output_png_name b"
    by (simp add: input_png_name_def output_png_name_def)
  show ?thesis
    using d i o io
    by (simp add: simulation_path_def input_png_path_def output_png_path_def path_join_inj
        simulation_dir_name_inj input_png_name_inj output_png_name_inj)
qed

section \<open>Launch failure\<close>

text \<open>
  Claim C6. When the launch of the solver raises, the driver returns at once: the record has
  status \<open>launch_failed\<close> and a not-a-number peak temperature, whatever the parameter set is,
  and the log of the run holds nothing but the set-up calls (the directory and the launch),
  so no model-construction or solve command was issued.
\<close>

theorem launch_failure_returns_at_once:
  assumes "run_single_simulation env run_id params base_run_dir final_image_dir = (out, t)"
    and "raised_in t (Launch_mapdl (simulation_path base_run_dir run_id) jobname True)"
  shows "has_returned out \<and>
         status_of out = Some (VStr ''launch_failed'') \<and>
         peak_temp_of out = Some (VFloat NaN) \<and>
         only_setup t"
proof -
  have "is_launch (Launch_mapdl (simulation_path base_run_dir run_id) jobname True)"
    by (simp add: is_launch_def)
  from launch_raised_cases [OF assms(1) this assms(2)] show ?thesis
    by (simp add: has_returned_def status_of_def peak_temp_of_def launch_failed_record_fields)
qed

theorem launch_failure_returns_at_once_witness:
  "raised_in (snd (time_test_run (const_env launch_fails)))
     (Launch_mapdl (simulation_path BASE_RUN_DIR 1) jobname True) \<and>
   has_returned (fst (time_test_run (const_env launch_fails))) \<and>
   status_of (fst (time_test_run (const_env launch_fails))) = Some (VStr ''launch_failed'') \<and>
   peak_temp_of (fst (time_test_run (const_env launch_fails))) = Some (VFloat NaN) \<and>
   only_setup (snd (time_test_run (const_env launch_fails)))"
proof -
  let ?r = "time_test_run (const_env launch_fails)"
  have run: "run_single_simulation (const_env launch_fails) 1 time_test_params
      BASE_RUN_DIR FINAL_IMAGE_DIR = (fst ?r, snd ?r)"
    by (simp add: time_test_run_def)
  have l: "raised_in (snd ?r) (Launch_mapdl (simulation_path BASE_RUN_DIR 1) jobname True)"
    by (simp add: time_test_run_def run_single_simulation_def Let_def call_def
        launch_fails_def is_launch_def raised_in_def)
  from launch_failure_returns_at_once [OF run l] l show ?thesis
    by simp
qed

text \<open>
  Claim C2. The record returned after a failed launch is built by a dict literal of its own,
  which has the keys \<open>peak_temp\<close>, \<open>status\<close> and \<open>timestamp\<close> and no key \<open>run_id\<close>:
  with the inputs of the timing harness and a solver that does not start, the driver
  returns a record of three fields. The record built at the end of a run has all four.
\<close>

theorem launch_failed_record_lacks_run_id:
  "fst (time_test_run (const_env launch_fails)) =
     Returned (launch_failed_record ''2025-01-01 12:00:00'') \<and>
   dom (launch_failed_record ''2025-01-01 12:00:00'') = {''peak_temp'', ''status'', ''timestamp''} \<and>
   launch_failed_record ''2025-01-01 12:00:00'' ''run_id'' = None \<and>
   dom (final_record 1 NaN ''2025-01-01 12:00:00'') =
     {''run_id'', ''peak_temp'', ''status'', ''timestamp''}"
proof -
  have "fst (time_test_run (const_env launch_fails)) =
      Returned (launch_failed_record ''2025-01-01 12:00:00'')"
    by (simp add: time_test_run_def run_single_simulation_def Let_def call_def
        launch_fails_def is_launch_def)
  moreover have "dom (launch_failed_record ''2025-01-01 12:00:00'') =
      {''peak_temp'', ''status'', ''timestamp''}"
    by (auto simp: launch_failed_record_def)
  moreover have "dom (final_record 1 NaN ''2025-01-01 12:00:00'') =
      {''run_id'', ''peak_temp'', ''status'', ''timestamp''}"
    by (auto simp: final_record_def)
  ultimately show ?thesis
    by (simp add: launch_failed_record_fields)
qed

section \<open>The status and the peak temperature\<close>

lemma finish_const:
  assumes "f Finish = Ok a1" "f Post1 = Ok a2" "f (Set_time braking_time) = Ok a3"
    and "f Exit_mapdl = Ok a4"
  shows "post_process_and_finish (const_env f) run_id fdir t =
     (case f (Run ''NSORT,TEMP,,1'') of
        Raise \<Rightarrow>
          (Returned (final_record run_id NaN ''2025-01-01 12:00:00''),
           t @ [(Finish, Ok a1), (Post1, Ok a2), (Set_time braking_time, Ok a3),
                (Run ''NSORT,TEMP,,1'', Raise), (Exit_mapdl, Ok a4)])
      | Ok b1 \<Rightarrow>
          (case f Get_value_sort_max of
             Raise \<Rightarrow>
               (Returned (final_record run_id NaN ''2025-01-01 12:00:00''),
                t @ [(Finish, Ok a1), (Post1, Ok a2), (Set_time braking_time, Ok a3),
                     (Run ''NSORT,TEMP,,1'', Ok b1), (Get_value_sort_max, Raise),
                     (Exit_mapdl, Ok a4)])
           | Ok peak \<Rightarrow>
               (Returned (final_record run_id peak ''2025-01-01 12:00:00''),
                t @ [(Finish, Ok a1), (Post1, Ok a2), (Set_time braking_time, Ok a3),
                     (Run ''NSORT,TEMP,,1'', Ok b1), (Get_value_sort_max, Ok peak),
                     (Plot_nodal_temperature (output_png_path fdir run_id),
                      f (Plot_nodal_temperature (output_png_path fdir run_id))),
                     (Exit_mapdl, Ok a4)])))"
  using assms
  by (cases "f (Run ''NSORT,TEMP,,1'')"; cases "f Get_value_sort_max";
      cases "f (Plot_nodal_temperature (output_png_path fdir run_id))")
     (simp_all add: post_process_and_finish_def post_setup_cmds_def post_processing_def call_def)

text \<open>
  Claim C9. In every record that the driver returns, the status is \<open>success\<close> exactly when
  the peak temperature is not the not-a-number value; and when the query for the maximum
  returns not-a-number without raising, the status is \<open>post_processing_failed\<close>.
\<close>

theorem status_success_iff_peak_is_number:
  assumes "run_single_simulation env run_id params base_run_dir final_image_dir = (Returned r, t)"
  shows "(r ''status'' = Some (VStr ''success'') \<longleftrightarrow> r ''peak_temp'' \<noteq> Some (VFloat NaN)) \<and>
         ((Get_value_sort_max, Ok NaN) \<in> set t \<longrightarrow>
            r ''status'' = Some (VStr ''post_processing_failed''))"
  using assms
proof (cases rule: returned_cases)
  case (Launch_failed ts)
  have "(Get_value_sort_max, Ok NaN) \<notin> set t"
    using Launch_failed(2) by (auto simp: only_setup_def list_all_iff is_setup_def)
  then show ?thesis
    using Launch_failed(1) by (simp add: launch_failed_record_fields)
next
  case (Finished peak ts v t0)
  then show ?thesis
    by (auto simp: final_record_fields)
qed

theorem status_success_iff_peak_is_number_witness:
  "fst (time_test_run (const_env nan_extracted)) =
     Returned (final_record 1 NaN ''2025-01-01 12:00:00'') \<and>
   (Get_value_sort_max, Ok NaN) \<in> set (snd (time_test_run (const_env nan_extracted))) \<and>
   final_record 1 NaN ''2025-01-01 12:00:00'' ''status'' = Some (VStr ''post_processing_failed'') \<and>
   final_record 1 NaN ''2025-01-01 12:00:00'' ''peak_temp'' = Some (VFloat NaN)"
proof -
  let ?r = "time_test_run (const_env nan_extracted)"
  have "\<forall>c. nan_extracted c = Raise \<longrightarrow> guarded c \<and> \<not> is_launch c"
    by (simp add: nan_extracted_def)
  then obtain t2 where
    t2: "?r = post_process_and_finish (const_env nan_extracted) 1 FINAL_IMAGE_DIR t2"
    by (rule time_test_run_finish)
  have out: "fst ?r = Returned (final_record 1 NaN ''2025-01-01 12:00:00'')"
    and log: "(Get_value_sort_max, Ok NaN) \<in> set (snd ?r)"
    unfolding t2
    by (simp_all add: finish_const [where f = nan_extracted and ?a1.0 = "Num 100"
          and ?a2.0 = "Num 100" and ?a3.0 = "Num 100" and ?a4.0 = "Num 100"] nan_extracted_def)
  have run: "run_single_simulation (const_env nan_extracted) 1 time_test_params
      BASE_RUN_DIR FINAL_IMAGE_DIR = (Returned (final_record 1 NaN ''2025-01-01 12:00:00''), snd ?r)"
    using out by (simp add: time_test_run_def prod_eq_iff)
  from status_success_iff_peak_is_number [OF run] out log show ?thesis
    by (simp add: final_record_fields)
qed

text \<open>
  Claim C3, as the code has it. When the sort command or the query for the maximum raises
  inside the \<open>try\<close> block and the driver returns, the record has status
  \<open>post_processing_failed\<close> and a not-a-number peak temperature.
\<close>

theorem extraction_failure_gives_failed_status:
  assumes "run_single_simulation env run_id params base_run_dir final_image_dir = (Returned r, t)"
    and "raised_in t (Run ''NSORT,TEMP,,1'') \<or> raised_in t Get_value_sort_max"
  shows "r ''status'' = Some (VStr ''post_processing_failed'') \<and>
         r ''peak_temp'' = Some (VFloat NaN)"
  using assms(1)
proof (cases rule: returned_cases)
  case (Launch_failed ts)
  with assms(2) show ?thesis
    by (auto simp: only_setup_def list_all_iff is_setup_def raised_in_def)
next
  case (Finished peak ts v t0)
  with assms(2) show ?thesis
    by (simp add: final_record_fields)
qed

theorem extraction_failure_gives_failed_status_witness:
  "fst (time_test_run (const_env sort_fails)) =
     Returned (final_record 1 NaN ''2025-01-01 12:00:00'') \<and>
   raised_in (snd (time_test_run (const_env sort_fails))) (Run ''NSORT,TEMP,,1'') \<and>
   final_record 1 NaN ''2025-01-01 12:00:00'' ''status'' = Some (VStr ''post_processing_failed'') \<and>
   final_record 1 NaN ''2025-01-01 12:00:00'' ''peak_temp'' = Some (VFloat NaN)"
proof -
  let ?r = "time_test_run (const_env sort_fails)"
  have "\<forall>c. sort_fails c = Raise \<longrightarrow> guarded c \<and> \<not> is_launch c"
  proof (intro allI)
    fix c show "sort_fails c = Raise \<longrightarrow> guarded c \<and> \<not> is_launch c"
      by (cases c) (simp_all add: sort_fails_def guarded_def is_launch_def)
  qed
  then obtain t2 where
    t2: "?r = post_process_and_finish (const_env sort_fails) 1 FINAL_IMAGE_DIR t2"
    by (rule time_test_run_finish)
  have out: "fst ?r = Returned (final_record 1 NaN ''2025-01-01 12:00:00'')"
    and log: "raised_in (snd ?r) (Run ''NSORT,TEMP,,1'')"
    unfolding t2
    by (simp_all add: finish_const [where f = sort_fails and ?a1.0 = "Num 100"
          and ?a2.0 = "Num 100" and ?a3.0 = "Num 100" and ?a4.0 = "Num 100"]
        sort_fails_def raised_in_def)
  have run: "run_single_simulation (const_env sort_fails) 1 time_test_params
      BASE_RUN_DIR FINAL_IMAGE_DIR = (Returned (final_record 1 NaN ''2025-01-01 12:00:00''), snd ?r)"
    using out by (simp add: time_test_run_def prod_eq_iff)
  from extraction_failure_gives_failed_status [OF run] out log show ?thesis
    by simp
qed

text \<open>
  The claim as the specification states it fails for the last call of the \<open>try\<close> block:
  with the inputs of the timing harness and a temperature plot that raises after the
  maximum, 100, has been read, the record has status \<open>success\<close> and peak temperature 100.
\<close>

theorem plot_failure_keeps_success:
  "raised_in (snd (time_test_run (const_env plot_fails)))
     (Plot_nodal_temperature (output_png_path FINAL_IMAGE_DIR 1)) \<and>
   status_of (fst (time_test_run (const_env plot_fails))) = Some (VStr ''success'') \<and>
   peak_temp_of (fst (time_test_run (const_env plot_fails))) = Some (VFloat (Num 100))"
proof -
  let ?r = "time_test_run (const_env plot_fails)"
  have "\<forall>c. plot_fails c = Raise \<longrightarrow> guarded c \<and> \<not> is_launch c"
  proof (intro allI)
    fix c show "plot_fails c = Raise \<longrightarrow> guarded c \<and> \<not> is_launch c"
      by (cases c) (simp_all add: plot_fails_def guarded_def is_launch_def)
  qed
  then obtain t2 where
    t2: "?r = post_process_and_finish (const_env plot_fails) 1 FINAL_IMAGE_DIR t2"
    by (rule time_test_run_finish)
  show ?thesis
    unfolding t2
    by (simp add: finish_const [where f = plot_fails and ?a1.0 = "Num 100"
          and ?a2.0 = "Num 100" and ?a3.0 = "Num 100" and ?a4.0 = "Num 100"]
        plot_fails_def raised_in_def status_of_def peak_temp_of_def final_record_fields)
qed

section \<open>Shutting the solver down\<close>

lemma exit_iff_returned:
  assumes run: "run_single_simulation env run_id params bdir fdir = (out, t)"
    and l: "launched t"
  shows "returned_in t Exit_mapdl \<longleftrightarrow> has_returned out"
  using run
proof (cases rule: run_cases)
  case Makedirs_raised
  with l show ?thesis
    by (simp add: launched_def is_launch_def)
next
  case (Launch_failed d)
  with l dir_made_setup [of d] show ?thesis
    by (auto simp: launched_def filter_empty_conv returned_def)
next
  case (Key_error d v k)
  have "\<not> returned_in t Exit_mapdl"
    using Key_error(1) dir_made_event [OF Key_error(5), of Exit_mapdl]
    by (auto simp: returned_in_def is_setup_def)
  with Key_error(2) show ?thesis
    by (simp add: has_returned_def)
next
  case (Simulated d v0 vc th hf)
  let ?l = "Launch_mapdl (simulation_path bdir run_id) jobname True"
  let ?t0 = "d @ [(?l, Ok v0)]"
  have d0: "(Exit_mapdl, x) \<notin> set ?t0" for x
    using dir_made_event [OF Simulated(1), of Exit_mapdl x] by (auto simp: is_setup_def)
  from Simulated(5) show ?thesis
  proof (cases rule: simulate_cases)
    case (Cmd_raised es c)
    have "\<not> returned_in t Exit_mapdl"
      using Cmd_raised(1) d0 no_exit_event [OF Cmd_raised(5)]
      by (auto simp: returned_in_def returned_def)
    with Cmd_raised(2) show ?thesis
      by (simp add: has_returned_def)
  next
    case (Type_error es e)
    have "\<not> returned_in t Exit_mapdl"
      using Type_error(1) d0 body_no_exit_event [OF Type_error(3)]
      by (auto simp: returned_in_def returned_def)
    with Type_error(2) show ?thesis
      by (simp add: has_returned_def)
  next
    case (Sort_raised es n v)
    then show ?thesis
      by (force simp: returned_in_def returned_def has_returned_def)
  next
    case (Get_raised es n a v)
    then show ?thesis
      by (force simp: returned_in_def returned_def has_returned_def)
  next
    case (Extracted es n a peak p x v)
    then show ?thesis
      by (force simp: returned_in_def returned_def has_returned_def)
  qed
qed

lemma raised_cmd_launched:
  assumes run: "run_single_simulation env run_id params bdir fdir = (Raised (MapdlError c), t)"
  shows "launched t"
  using run
proof (cases rule: run_cases)
  case (Simulated d v0 vc th hf)
  from Simulated(5) obtain es where
    "t = (d @ [(Launch_mapdl (simulation_path bdir run_id) jobname True, Ok v0)]) @ es"
    by (rule simulate_appends)
  then show ?thesis
    by (simp add: launched_def is_launch_def returned_def)
qed simp_all

lemma time_test_amesh_fails:
  "fst (time_test_run (const_env amesh_fails)) = Raised (MapdlError Amesh)"
proof -
  let ?p = "simulation_path BASE_RUN_DIR 1"
  let ?P = "\<lambda>c. amesh_fails c = Raise"
  have ab: "amesh_fails (Makedirs ?p) = Ok (Num 100)"
    "amesh_fails (Launch_mapdl ?p jobname True) = Ok (Num 100)"
    by (simp_all add: amesh_fails_def)
  let ?vanes = "fst (vane_loop_cmds (VInt 54) (VFloat (Num 2.5)))"
  note l = time_test_vane_loop
  have "\<forall>c\<in>set ?vanes. \<not> ?P c"
  proof
    fix c assume "c \<in> set ?vanes"
    then have "is_vane_cmd c" by (rule vane_loop_shape)
    then show "\<not> ?P c"
      by (cases c) (simp_all add: is_vane_cmd_def amesh_fails_def)
  qed
  then have "find ?P (?vanes @ []) = find ?P []"
    by (rule find_append_skip)
  then have w: "find ?P ?vanes = None"
    by simp
  have v: "find ?P mesh_cmds = Some Amesh"
    by (simp add: mesh_cmds_def amesh_fails_def)
  have m: "find ?P model_setup_cmds = None"
    by (simp add: model_setup_cmds_def amesh_fails_def)
  have "fst (pre_processing (const_env amesh_fails) (VInt 54) (VFloat (Num 2.5))
      (input_png_path FINAL_IMAGE_DIR 1) t) = Some (MapdlError Amesh)" for t
    unfolding fst_pre_processing_const
    by (simp only: m l w v option.case option.map)
  then show ?thesis
    by (simp add: time_test_run_const [OF ab] simulate_pre_raised)
qed

text \<open>
  Claim C4, as the code has it. \<open>mapdl.exit()\<close> is the statement before the final
  \<open>return\<close> and is in no \<open>finally\<close>: in a run that passed the launch, the solver has been
  shut down exactly when the driver returns a record, which includes the runs whose
  post-processing block or rendering failed. When an exception leaves the driver, no
  shutdown has been done.
\<close>

theorem solver_shut_down_iff_driver_returns:
  assumes "run_single_simulation env run_id params base_run_dir final_image_dir = (out, t)"
    and "launched t"
  shows "returned_in t Exit_mapdl \<longleftrightarrow> has_returned out"
  using assms by (rule exit_iff_returned)

theorem solver_shut_down_iff_driver_returns_witness:
  "launched (snd (time_test_run (const_env sort_fails))) \<and>
   returned_in (snd (time_test_run (const_env sort_fails))) Exit_mapdl \<and>
   has_returned (fst (time_test_run (const_env sort_fails)))"
proof -
  let ?r = "time_test_run (const_env sort_fails)"
  have "\<forall>c. sort_fails c = Raise \<longrightarrow> guarded c \<and> \<not> is_launch c"
  proof (intro allI)
    fix c show "sort_fails c = Raise \<longrightarrow> guarded c \<and> \<not> is_launch c"
      by (cases c) (simp_all add: sort_fails_def guarded_def is_launch_def)
  qed
  then obtain t2 where
    t2: "?r = post_process_and_finish (const_env sort_fails) 1 FINAL_IMAGE_DIR t2"
    and l2: "launched t2"
    by (rule time_test_run_finish)
  have ex: "returned_in (snd ?r) Exit_mapdl"
    unfolding t2
    by (simp add: finish_const [where f = sort_fails and ?a1.0 = "Num 100"
          and ?a2.0 = "Num 100" and ?a3.0 = "Num 100" and ?a4.0 = "Num 100"]
        sort_fails_def returned_in_def returned_def)
  have la: "launched (snd ?r)"
    unfolding t2
    by (simp add: finish_const [where f = sort_fails and ?a1.0 = "Num 100"
          and ?a2.0 = "Num 100" and ?a3.0 = "Num 100" and ?a4.0 = "Num 100"]
        sort_fails_def launched_append l2)
  have run: "run_single_simulation (const_env sort_fails) 1 time_test_params
      BASE_RUN_DIR FINAL_IMAGE_DIR = (fst ?r, snd ?r)"
    by (simp add: time_test_run_def)
  from solver_shut_down_iff_driver_returns [OF run la] la ex show ?thesis
    by simp
qed

text \<open>
  The claim as the specification states it fails on a path where model construction fails:
  with the inputs of the timing harness and a meshing command that raises, the launch has
  succeeded, the exception leaves the driver, and the log has no shutdown of the solver.
\<close>

theorem meshing_failure_leaves_solver_running:
  "launched (snd (time_test_run (const_env amesh_fails))) \<and>
   fst (time_test_run (const_env amesh_fails)) = Raised (MapdlError Amesh) \<and>
   \<not> returned_in (snd (time_test_run (const_env amesh_fails))) Exit_mapdl"
proof -
  let ?r = "time_test_run (const_env amesh_fails)"
  have run: "run_single_simulation (const_env amesh_fails) 1 time_test_params
      BASE_RUN_DIR FINAL_IMAGE_DIR = (Raised (MapdlError Amesh), snd ?r)"
    using time_test_amesh_fails by (simp add: time_test_run_def prod_eq_iff)
  have la: "launched (snd ?r)"
    using run by (rule raised_cmd_launched)
  from exit_iff_returned [OF run la] la time_test_amesh_fails show ?thesis
    by (simp add: has_returned_def)
qed

section \<open>Missing parameters\<close>

text \<open>
  Claim C10, as the code has it. The three subscriptions of \<open>params\<close> come after the
  launch. When a key is missing and the launch has succeeded, the driver raises a
  \<open>KeyError\<close> for a missing key, and the log of the run holds the set-up calls only: the
  solver has been launched and has been given no command, the shutdown included. When the
  launch has not succeeded, \<open>params\<close> is never read: the driver returns the
  \<open>launch_failed\<close> record, or the exception of \<open>os.makedirs\<close> leaves it; so a
  \<open>KeyError\<close> never leaves the driver before the launch has succeeded.
\<close>

theorem missing_key_raises_after_launch:
  assumes "run_single_simulation env run_id params base_run_dir final_image_dir = (out, t)"
    and "k \<in> {''vane_count'', ''vane_thickness_deg'', ''heat_flux''}"
    and "params k = None"
  shows "(launched t \<longrightarrow> is_key_error params out \<and> only_setup t) \<and>
         (is_key_error params out \<longrightarrow> launched t) \<and>
         (\<not> launched t \<longrightarrow>
            out = Raised OSError \<or> status_of out = Some (VStr ''launch_failed''))"
  using assms(1)
proof (cases rule: run_cases)
  case Makedirs_raised
  then show ?thesis
    by (simp add: launched_def is_launch_def is_key_error_def)
next
  case (Launch_failed d)
  have "\<not> launched t"
    using Launch_failed(1,3) dir_made_setup [of d]
    by (auto simp: launched_def filter_empty_conv returned_def)
  with Launch_failed(2) show ?thesis
    by (simp add: is_key_error_def status_of_def launch_failed_record_fields)
next
  case (Key_error d v key)
  have "only_setup t"
    using Key_error(1,5) dir_made_setup [of d]
    by (auto simp: only_setup_def list_all_iff is_setup_def)
  moreover have "launched t"
    using Key_error(1) by (simp add: launched_def is_launch_def returned_def)
  ultimately show ?thesis
    using Key_error(2,3) by (simp add: is_key_error_def)
next
  case (Simulated d v vc th hf)
  with assms(2,3) show ?thesis by auto
qed

theorem missing_key_raises_after_launch_witness:
  "launched (snd (run_single_simulation (const_env all_ok) 1 Map.empty BASE_RUN_DIR FINAL_IMAGE_DIR)) \<and>
   fst (run_single_simulation (const_env all_ok) 1 Map.empty BASE_RUN_DIR FINAL_IMAGE_DIR) =
     Raised (KeyError ''vane_count'') \<and>
   only_setup (snd (run_single_simulation (const_env all_ok) 1 Map.empty BASE_RUN_DIR FINAL_IMAGE_DIR))"
proof -
  let ?r = "run_single_simulation (const_env all_ok) 1 Map.empty BASE_RUN_DIR FINAL_IMAGE_DIR"
  have run: "?r = (fst ?r, snd ?r)"
    by simp
  have k: "''vane_count'' \<in> {''vane_count'', ''vane_thickness_deg'', ''heat_flux''}"
    "(Map.empty :: pydict) ''vane_count'' = None"
    by simp_all
  have la: "launched (snd ?r)" and out: "fst ?r = Raised (KeyError ''vane_count'')"
    by (simp_all add: run_single_simulation_def Let_def call_def all_ok_def
        read_params_and_simulate_def launched_def is_launch_def returned_def)
  from missing_key_raises_after_launch [OF run k] la out show ?thesis
    by simp
qed

text \<open>
  The claim as the specification states it fails when the launch fails: with an empty
  parameter set, which lacks all three keys, and a solver that does not start, the driver
  raises nothing and returns the \<open>launch_failed\<close> record.
\<close>

theorem missing_key_unnoticed_when_launch_fails:
  "(Map.empty :: pydict) ''vane_count'' = None \<and>
   (Map.empty :: pydict) ''vane_thickness_deg'' = None \<and>
   (Map.empty :: pydict) ''heat_flux'' = None \<and>
   fst (run_single_simulation (const_env launch_fails) 1 Map.empty BASE_RUN_DIR FINAL_IMAGE_DIR) =
     Returned (launch_failed_record ''2025-01-01 12:00:00'') \<and>
   \<not> is_key_error Map.empty
     (fst (run_single_simulation (const_env launch_fails) 1 Map.empty BASE_RUN_DIR FINAL_IMAGE_DIR))"
  by (simp add: run_single_simulation_def Let_def call_def launch_fails_def is_launch_def
      is_key_error_def)

section \<open>When the driver returns\<close>

lemma as_float_numeric: "(\<exists>x. as_float th = Inr x) \<longleftrightarrow> numeric th"
  by (cases th) (simp_all add: numeric_def float_of_int_def)

lemma vane_cmds_passes:
  "(\<exists>cs. vane_cmds n th i = Inr cs) \<longleftrightarrow> int i < float_limit \<and> numeric th"
proof (cases "as_float th")
  case (Inl e)
  then have "\<not> numeric th"
    using as_float_numeric [of th] by simp
  with Inl show ?thesis
    by (simp add: vane_cmds_def float_of_int_def)
next
  case (Inr x)
  then have "numeric th"
    using as_float_numeric [of th] by auto
  with Inr show ?thesis
    by (simp add: vane_cmds_def float_of_int_def Let_def)
qed

lemma vane_iterations_passes:
  "snd (vane_iterations n th is) = None \<longleftrightarrow> (\<forall>i\<in>set is. int i < float_limit \<and> numeric th)"
proof (induction "is")
  case Nil
  show ?case by simp
next
  case (Cons i "is")
  show ?case
  proof (cases "vane_cmds n th i")
    case (Inl e)
    then have "\<not> (int i < float_limit \<and> numeric th)"
      using vane_cmds_passes [of n th i] by simp
    with Inl show ?thesis by auto
  next
    case (Inr cs)
    then have "int i < float_limit \<and> numeric th"
      using vane_cmds_passes [of n th i] by simp
    with Inr Cons.IH show ?thesis
      by (cases "vane_iterations n th is") simp
  qed
qed

lemma range_converts: "(\<forall>i\<in>set (py_range n). int i < float_limit) \<longleftrightarrow> n \<le> float_limit"
proof
  assume a: "\<forall>i\<in>set (py_range n). int i < float_limit"
  show "n \<le> float_limit"
  proof (rule ccontr)
    assume "\<not> n \<le> float_limit"
    then have "nat float_limit \<in> set (py_range n)"
      using float_limit_positive by (simp add: py_range_def)
    with a have "int (nat float_limit) < float_limit"
      by blast
    then show False
      using float_limit_positive by simp
  qed
next
  assume "n \<le> float_limit"
  then show "\<forall>i\<in>set (py_range n). int i < float_limit"
    by (auto simp: py_range_def)
qed

lemma vane_loop_passes:
  "snd (vane_loop_cmds vc th) = None \<longleftrightarrow>
     (case vc of VInt n \<Rightarrow> n \<le> float_limit \<and> (0 < n \<longrightarrow> numeric th) | _ \<Rightarrow> False)"
proof (cases vc)
  case (VInt n)
  have r: "py_range n \<noteq> [] \<longleftrightarrow> 0 < n"
    by (auto simp: py_range_def)
  have "(\<forall>i\<in>set (py_range n). int i < float_limit \<and> numeric th) \<longleftrightarrow>
      (\<forall>i\<in>set (py_range n). int i < float_limit) \<and> (py_range n \<noteq> [] \<longrightarrow> numeric th)"
    by (cases "py_range n") auto
  also have "\<dots> \<longleftrightarrow> n \<le> float_limit \<and> (0 < n \<longrightarrow> numeric th)"
    by (simp only: range_converts r)
  finally show ?thesis
    using VInt by (simp add: vane_loop_cmds_def vane_iterations_passes)
qed (simp_all add: vane_loop_cmds_def)

lemma usable_read:
  assumes "params ''vane_count'' = Some vc" "params ''vane_thickness_deg'' = Some th"
    and "params ''heat_flux'' = Some hf"
  shows "usable params \<longleftrightarrow> snd (vane_loop_cmds vc th) = None"
  using assms by (cases vc) (simp_all add: usable_def vane_loop_passes)

lemma usable_keys:
  assumes "usable params" and "k \<in> {''vane_count'', ''vane_thickness_deg'', ''heat_flux''}"
  shows "params k \<noteq> None"
  using assms by (auto simp: usable_def split: option.splits pyval.splits)

lemma simulate_returned_passed:
  assumes "simulate env run_id vc th hf fdir t = (Returned r, t')"
  shows "snd (vane_loop_cmds vc th) = None"
proof -
  obtain r1 t1 where p: "pre_processing env vc th (input_png_path fdir run_id) t = (r1, t1)"
    by (cases "pre_processing env vc th (input_png_path fdir run_id) t")
  with assms have "r1 = None"
    by (cases r1) (simp_all add: simulate_def)
  with p show ?thesis
    by (simp add: pre_processing_passed)
qed

lemma caught_raised: "caught t \<Longrightarrow> (c, Raise) \<in> set t \<Longrightarrow> guarded c"
  by (force simp: caught_def)

lemma dir_made_caught: "dir_made d \<Longrightarrow> caught d"
  by (simp add: dir_made_def caught_def returned_def)

text \<open>
  Claim C1, as the code has it. Three places of the driver catch exceptions: the launch,
  the picture of the mesh, and the \<open>try\<close> block of the post-processing. The driver returns
  a record exactly when no call outside these places has raised and, once the launch has
  succeeded, the parameter set is usable. A call outside these places that raises is the
  last call of the run, and its exception leaves the driver. When no such call raises and
  the driver does not return, what leaves it is the \<open>KeyError\<close> of a missing key, or the
  \<open>TypeError\<close> or \<open>OverflowError\<close> of the vane loop.
\<close>

theorem returns_iff_no_unguarded_failure:
  assumes "run_single_simulation env run_id params base_run_dir final_image_dir = (out, t)"
  shows "(has_returned out \<longleftrightarrow> caught t \<and> (launched t \<longrightarrow> usable params)) \<and>
         (\<forall>c. (c, Raise) \<in> set t \<and> \<not> guarded c \<longrightarrow>
              out = Raised (exception_of c) \<and> last t = (c, Raise)) \<and>
         (caught t \<and> \<not> has_returned out \<longrightarrow>
            (\<exists>k. out = Raised (KeyError k) \<and> params k = None) \<or>
            out = Raised TypeError \<or> out = Raised OverflowError)"
  using assms
proof (cases rule: run_cases)
  case Makedirs_raised
  have "\<not> caught t"
    using Makedirs_raised(1) by (simp add: caught_def guarded_def)
  then show ?thesis
    using Makedirs_raised by (simp add: has_returned_def exception_of_def)
next
  case (Launch_failed d)
  have c: "caught t"
    using Launch_failed(1) dir_made_caught [OF Launch_failed(3)]
    by (simp add: caught_append) (simp add: caught_def guarded_def)
  have "\<not> launched t"
    using Launch_failed(1,3) dir_made_setup [of d]
    by (auto simp: launched_def filter_empty_conv returned_def)
  with c show ?thesis
    using Launch_failed(2) caught_raised [OF c] by (auto simp: has_returned_def)
next
  case (Key_error d v k)
  have c: "caught t"
    using Key_error(1) dir_made_caught [OF Key_error(5)]
    by (simp add: caught_append caught_try)
  have "\<not> usable params"
    using usable_keys [OF _ Key_error(4)] Key_error(3) by blast
  moreover have "launched t"
    using Key_error(1) by (simp add: launched_def is_launch_def returned_def)
  ultimately show ?thesis
    using Key_error(2,3) caught_raised [OF c] by (auto simp: has_returned_def)
next
  case (Simulated d v vc th hf)
  let ?t0 = "d @ [(Launch_mapdl (simulation_path base_run_dir run_id) jobname True, Ok v)]"
  have c0: "caught ?t0"
    using dir_made_caught [OF Simulated(1)] by (simp add: caught_append caught_try)
  have l0: "launched ?t0"
    by (simp add: launched_def is_launch_def returned_def)
  note u = usable_read [OF Simulated(2,3,4)]
  from Simulated(5) show ?thesis
  proof (cases rule: simulate_cases)
    case (Cmd_raised es c)
    have t: "t = (?t0 @ es) @ [(c, Raise)]"
      using Cmd_raised(1) by simp
    have c1: "caught (?t0 @ es)"
      using c0 Cmd_raised(6) by (simp only: caught_append)
    have "\<not> caught t"
      using Cmd_raised(3) unfolding t by (simp add: caught_def)
    moreover have "c' = c" if "(c', Raise) \<in> set t" "\<not> guarded c'" for c'
      using that caught_raised [OF c1, of c'] unfolding t by auto
    moreover have "exception_of c = MapdlError c"
      using Cmd_raised(4) by (cases c) (simp_all add: exception_of_def is_setup_def)
    moreover have "last t = (c, Raise)"
      unfolding t by simp
    ultimately show ?thesis
      using Cmd_raised(2) by (auto simp: has_returned_def)
  next
    case (Type_error es e)
    have c: "caught t"
      using Type_error(1) c0 body_caught [OF Type_error(3)] by (simp only: caught_append)
    have "launched t"
      using Type_error(1) l0 by (simp only: launched_append) simp
    moreover have "\<not> usable params"
      using u Type_error(5) by simp
    ultimately show ?thesis
      using Type_error(2,4) caught_raised [OF c] by (auto simp: has_returned_def)
  next
    case (Sort_raised es n w)
    have "caught (?t0 @ es @ [(Run n, Raise)] @ [(Exit_mapdl, Ok w)])"
      using c0 body_caught [OF Sort_raised(3)] by (simp only: caught_append caught_try)
    then have c: "caught t"
      using Sort_raised(1) by simp
    have "usable params"
      using u simulate_returned_passed [OF Simulated(5) [unfolded Sort_raised(2)]] by simp
    with c show ?thesis
      using Sort_raised(2) caught_raised [OF c] by (auto simp: has_returned_def)
  next
    case (Get_raised es n a w)
    have "caught (?t0 @ es @ [(Run n, Ok a)] @ [(Get_value_sort_max, Raise)] @
        [(Exit_mapdl, Ok w)])"
      using c0 body_caught [OF Get_raised(3)] by (simp only: caught_append caught_try)
    then have c: "caught t"
      using Get_raised(1) by simp
    have "usable params"
      using u simulate_returned_passed [OF Simulated(5) [unfolded Get_raised(2)]] by simp
    with c show ?thesis
      using Get_raised(2) caught_raised [OF c] by (auto simp: has_returned_def)
  next
    case (Extracted es n a peak p x w)
    have "caught (?t0 @ es @ [(Run n, Ok a)] @ [(Get_value_sort_max, Ok peak)] @
        [(Plot_nodal_temperature p, x)] @ [(Exit_mapdl, Ok w)])"
      using c0 body_caught [OF Extracted(3)] by (simp only: caught_append caught_try)
    then have c: "caught t"
      using Extracted(1) by simp
    have "usable params"
      using u simulate_returned_passed [OF Simulated(5) [unfolded Extracted(2)]] by simp
    with c show ?thesis
      using Extracted(2) caught_raised [OF c] by (auto simp: has_returned_def)
  qed
qed

theorem returns_iff_no_unguarded_failure_witness:
  "raised_in (snd (time_test_run (const_env sort_fails))) (Run ''NSORT,TEMP,,1'') \<and>
   has_returned (fst (time_test_run (const_env sort_fails))) \<and>
   caught (snd (time_test_run (const_env sort_fails))) \<and>
   usable time_test_params"
proof -
  let ?r = "time_test_run (const_env sort_fails)"
  have "\<forall>c. sort_fails c = Raise \<longrightarrow> guarded c \<and> \<not> is_launch c"
  proof (intro allI)
    fix c show "sort_fails c = Raise \<longrightarrow> guarded c \<and> \<not> is_launch c"
      by (cases c) (simp_all add: sort_fails_def guarded_def is_launch_def)
  qed
  then obtain t2 where
    t2: "?r = post_process_and_finish (const_env sort_fails) 1 FINAL_IMAGE_DIR t2"
    and l2: "launched t2"
    by (rule time_test_run_finish)
  have out: "has_returned (fst ?r)" and log: "raised_in (snd ?r) (Run ''NSORT,TEMP,,1'')"
    unfolding t2
    by (simp_all add: finish_const [where f = sort_fails and ?a1.0 = "Num 100"
          and ?a2.0 = "Num 100" and ?a3.0 = "Num 100" and ?a4.0 = "Num 100"]
        sort_fails_def raised_in_def has_returned_def)
  have la: "launched (snd ?r)"
    unfolding t2
    by (simp add: finish_const [where f = sort_fails and ?a1.0 = "Num 100"
          and ?a2.0 = "Num 100" and ?a3.0 = "Num 100" and ?a4.0 = "Num 100"]
        sort_fails_def launched_append l2)
  have run: "run_single_simulation (const_env sort_fails) 1 time_test_params
      BASE_RUN_DIR FINAL_IMAGE_DIR = (fst ?r, snd ?r)"
    by (simp add: time_test_run_def)
  from returns_iff_no_unguarded_failure [OF run] out la log show ?thesis
    by simp
qed

text \<open>
  The claim as the specification states it fails wherever a call outside the three guarded
  places raises: with the inputs of the timing harness and a solve command that raises, the
  exception leaves the driver.
\<close>

theorem solve_failure_propagates:
  "fst (time_test_run (const_env solve_fails)) = Raised (MapdlError Solve)"
proof -
  let ?p = "simulation_path BASE_RUN_DIR 1"
  let ?hf = "VFloat (Num 1900000)"
  let ?png = "input_png_path FINAL_IMAGE_DIR 1"
  have ab: "solve_fails (Makedirs ?p) = Ok (Num 100)"
    "solve_fails (Launch_mapdl ?p jobname True) = Ok (Num 100)"
    by (simp_all add: solve_fails_def)
  note l = time_test_vane_loop
  have v: "\<forall>c. is_vane_cmd c \<longrightarrow> solve_fails c \<noteq> Raise"
  proof (intro allI)
    fix c show "is_vane_cmd c \<longrightarrow> solve_fails c \<noteq> Raise"
      by (cases c) (simp_all add: is_vane_cmd_def solve_fails_def)
  qed
  have m: "\<forall>c\<in>set model_setup_cmds. solve_fails c \<noteq> Raise"
    by (simp add: model_setup_cmds_def solve_fails_def)
  have s: "\<forall>c\<in>set mesh_cmds. solve_fails c \<noteq> Raise"
    by (simp add: mesh_cmds_def solve_fails_def)
  note p = pre_processing_const_ok [OF v m s l, of ?png]
  have "find (\<lambda>c. solve_fails c = Raise) (load_select_cmds @ heat_and_cool_cmds ?hf) = Some Solve"
    by (simp add: load_select_cmds_def heat_and_cool_cmds_def solve_fails_def)
  then have q: "fst (solution (const_env solve_fails) ?hf t) = Some (MapdlError Solve)" for t
    by (simp add: fst_solution_const)
  show ?thesis
    by (simp only: time_test_run_const [OF ab] simulate_solution_raised [OF p q])
qed

section \<open>Rendering failures\<close>

text \<open>
  Two environments that answer every call but the two renderings alike. The logs of two
  runs are compared by the calls made, since the environment sees nothing else.
\<close>

lemma exec_agree:
  assumes A: "\<forall>h c. \<not> is_render c \<longrightarrow> respond e1 h c = respond e2 h c"
    and cs: "\<forall>c\<in>set cs. \<not> is_render c"
    and t: "map fst t1 = map fst t2"
  shows "fst (exec e1 cs t1) = fst (exec e2 cs t2) \<and>
         map fst (snd (exec e1 cs t1)) = map fst (snd (exec e2 cs t2))"
  using cs t
proof (induction cs arbitrary: t1 t2)
  case Nil
  then show ?case by simp
next
  case (Cons c cs)
  have r: "respond e1 (map fst t1) c = respond e2 (map fst t2) c"
    using A Cons.prems by simp
  show ?case
  proof (cases "respond e2 (map fst t2) c")
    case Raise
    then show ?thesis
      using r Cons.prems(2) by (simp add: exec_Cons_Raise del: exec.simps)
  next
    case (Ok v)
    have "fst (exec e1 cs (t1 @ [(c, Ok v)])) = fst (exec e2 cs (t2 @ [(c, Ok v)])) \<and>
        map fst (snd (exec e1 cs (t1 @ [(c, Ok v)]))) =
        map fst (snd (exec e2 cs (t2 @ [(c, Ok v)])))"
      by (rule Cons.IH) (use Cons.prems in simp_all)
    then show ?thesis
      using r Ok by (simp add: exec_Cons_Ok del: exec.simps)
  qed
qed

lemma not_render_plain: "plain c \<Longrightarrow> \<not> is_render c"
  by (cases c) (simp_all add: plain_def guarded_def is_render_def)

lemma pre_processing_agree:
  assumes A: "\<forall>h c. \<not> is_render c \<longrightarrow> respond e1 h c = respond e2 h c"
    and t: "map fst t1 = map fst t2"
  shows "fst (pre_processing e1 vc th png t1) = fst (pre_processing e2 vc th png t2) \<and>
         map fst (snd (pre_processing e1 vc th png t1)) =
         map fst (snd (pre_processing e2 vc th png t2))"
proof -
  obtain vanes stop where vl: "vane_loop_cmds vc th = (vanes, stop)"
    by (cases "vane_loop_cmds vc th")
  have m: "\<forall>c\<in>set model_setup_cmds. \<not> is_render c"
    using plain_model_setup not_render_plain by blast
  obtain r1 u1 where a1: "exec e1 model_setup_cmds t1 = (r1, u1)"
    by (cases "exec e1 model_setup_cmds t1")
  obtain r2 u2 where a2: "exec e2 model_setup_cmds t2 = (r2, u2)"
    by (cases "exec e2 model_setup_cmds t2")
  from exec_agree [OF A m t] a1 a2 have eq1: "r1 = r2" "map fst u1 = map fst u2"
    by simp_all
  have v: "\<forall>c\<in>set vanes. \<not> is_render c"
    using plain_vane_loop [of _ vc th] vl not_render_plain by auto
  obtain q1 w1 where b1: "exec e1 vanes u1 = (q1, w1)"
    by (cases "exec e1 vanes u1")
  obtain q2 w2 where b2: "exec e2 vanes u2 = (q2, w2)"
    by (cases "exec e2 vanes u2")
  from exec_agree [OF A v eq1(2)] b1 b2 have eq2: "q1 = q2" "map fst w1 = map fst w2"
    by simp_all
  have s: "\<forall>c\<in>set mesh_cmds. \<not> is_render c"
    using plain_mesh not_render_plain by blast
  obtain p1 x1 where c1: "exec e1 mesh_cmds w1 = (p1, x1)"
    by (cases "exec e1 mesh_cmds w1")
  obtain p2 x2 where c2: "exec e2 mesh_cmds w2 = (p2, x2)"
    by (cases "exec e2 mesh_cmds w2")
  from exec_agree [OF A s eq2(2)] c1 c2 have eq3: "p1 = p2" "map fst x1 = map fst x2"
    by simp_all
  show ?thesis
    using vl a1 a2 eq1 b1 b2 eq2 c1 c2 eq3
    by (cases r2; cases q2; cases stop; cases p2;
        cases "respond e1 (map fst x1) (Eplot png)"; cases "respond e2 (map fst x2) (Eplot png)")
       (simp_all add: pre_processing_def call_def)
qed

lemma solution_agree:
  assumes A: "\<forall>h c. \<not> is_render c \<longrightarrow> respond e1 h c = respond e2 h c"
    and t: "map fst t1 = map fst t2"
  shows "fst (solution e1 hf t1) = fst (solution e2 hf t2) \<and>
         map fst (snd (solution e1 hf t1)) = map fst (snd (solution e2 hf t2))"
proof -
  let ?cs = "load_select_cmds @ heat_and_cool_cmds hf"
  have m: "\<forall>c\<in>set ?cs. \<not> is_render c"
    using plain_load_select plain_heat_and_cool not_render_plain by auto
  obtain r1 u1 where a1: "exec e1 ?cs t1 = (r1, u1)"
    by (cases "exec e1 ?cs t1")
  obtain r2 u2 where a2: "exec e2 ?cs t2 = (r2, u2)"
    by (cases "exec e2 ?cs t2")
  from exec_agree [OF A m t] a1 a2 have "r1 = r2" "map fst u1 = map fst u2"
    by simp_all
  with a1 a2 show ?thesis
    by (cases r2) (simp_all add: solution_def)
qed

lemma post_processing_agree:
  assumes A: "\<forall>h c. \<not> is_render c \<longrightarrow> respond e1 h c = respond e2 h c"
    and t: "map fst t1 = map fst t2"
  shows "fst (post_processing e1 png t1) = fst (post_processing e2 png t2) \<and>
         map fst (snd (post_processing e1 png t1)) = map fst (snd (post_processing e2 png t2))"
proof -
  let ?n = "Run ''NSORT,TEMP,,1''"
  have r: "respond e1 (map fst t1) ?n = respond e2 (map fst t2) ?n"
    using A t by (simp add: is_render_def)
  have g: "respond e1 (map fst t1 @ [?n]) Get_value_sort_max =
      respond e2 (map fst t2 @ [?n]) Get_value_sort_max"
    using A t by (simp add: is_render_def)
  show ?thesis
    using r g t
    by (cases "respond e2 (map fst t2) ?n";
        cases "respond e2 (map fst t2 @ [?n]) Get_value_sort_max";
        cases "respond e1 (map fst t1 @ [?n, Get_value_sort_max]) (Plot_nodal_temperature png)";
        cases "respond e2 (map fst t2 @ [?n, Get_value_sort_max]) (Plot_nodal_temperature png)")
       (simp_all add: post_processing_def call_def)
qed

lemma finish_agree:
  assumes A: "\<forall>h c. \<not> is_render c \<longrightarrow> respond e1 h c = respond e2 h c"
    and n: "now e1 = now e2"
    and t: "map fst t1 = map fst t2"
  shows "fst (post_process_and_finish e1 run_id fdir t1) =
         fst (post_process_and_finish e2 run_id fdir t2)"
proof -
  have m: "\<forall>c\<in>set post_setup_cmds. \<not> is_render c"
    using plain_post_setup not_render_plain by blast
  obtain r1 u1 where a1: "exec e1 post_setup_cmds t1 = (r1, u1)"
    by (cases "exec e1 post_setup_cmds t1")
  obtain r2 u2 where a2: "exec e2 post_setup_cmds t2 = (r2, u2)"
    by (cases "exec e2 post_setup_cmds t2")
  from exec_agree [OF A m t] a1 a2 have eq1: "r1 = r2" "map fst u1 = map fst u2"
    by simp_all
  show ?thesis
  proof (cases r2)
    case (Some c)
    with a1 a2 eq1 show ?thesis by (simp add: post_process_and_finish_def)
  next
    case None
    let ?png = "output_png_path fdir run_id"
    obtain p1 w1 where b1: "post_processing e1 ?png u1 = (p1, w1)"
      by (cases "post_processing e1 ?png u1")
    obtain p2 w2 where b2: "post_processing e2 ?png u2 = (p2, w2)"
      by (cases "post_processing e2 ?png u2")
    from post_processing_agree [OF A eq1(2), of ?png] b1 b2 have
      eq2: "p1 = p2" "map fst w1 = map fst w2"
      by simp_all
    have x: "\<forall>c\<in>set [Exit_mapdl]. \<not> is_render c"
      by (simp add: is_render_def)
    obtain q1 z1 where c1: "exec e1 [Exit_mapdl] w1 = (q1, z1)"
      by (cases "exec e1 [Exit_mapdl] w1")
    obtain q2 z2 where c2: "exec e2 [Exit_mapdl] w2 = (q2, z2)"
      by (cases "exec e2 [Exit_mapdl] w2")
    from exec_agree [OF A x eq2(2)] c1 c2 have eq3: "q1 = q2" "map fst z1 = map fst z2"
      by simp_all
    show ?thesis
      using a1 a2 eq1 None b1 b2 eq2 c1 c2 eq3 n
      by (cases q2) (simp_all add: post_process_and_finish_def)
  qed
qed

lemma simulate_agree:
  assumes A: "\<forall>h c. \<not> is_render c \<longrightarrow> respond e1 h c = respond e2 h c"
    and n: "now e1 = now e2"
    and t: "map fst t1 = map fst t2"
  shows "fst (simulate e1 run_id vc th hf fdir t1) = fst (simulate e2 run_id vc th hf fdir t2)"
proof -
  let ?png = "input_png_path fdir run_id"
  obtain r1 u1 where a1: "pre_processing e1 vc th ?png t1 = (r1, u1)"
    by (cases "pre_processing e1 vc th ?png t1")
  obtain r2 u2 where a2: "pre_processing e2 vc th ?png t2 = (r2, u2)"
    by (cases "pre_processing e2 vc th ?png t2")
  from pre_processing_agree [OF A t, of vc th ?png] a1 a2 have
    eq1: "r1 = r2" "map fst u1 = map fst u2"
    by simp_all
  obtain q1 w1 where b1: "solution e1 hf u1 = (q1, w1)"
    by (cases "solution e1 hf u1")
  obtain q2 w2 where b2: "solution e2 hf u2 = (q2, w2)"
    by (cases "solution e2 hf u2")
  from solution_agree [OF A eq1(2), of hf] b1 b2 have eq2: "q1 = q2" "map fst w1 = map fst w2"
    by simp_all
  show ?thesis
    using a1 a2 eq1 b1 b2 eq2 finish_agree [OF A n eq2(2), of run_id fdir]
    by (cases r2; cases q2) (simp_all add: simulate_def)
qed

text \<open>
  Claim C7. Let two environments differ in nothing but what the two rendering calls do (the
  picture of the mesh and the picture of the temperature field). Then the driver does the
  same in both: it returns the same record, so the status is the same, or it raises the same
  exception.
\<close>

theorem rendering_does_not_change_outcome:
  assumes "\<forall>h c. \<not> is_render c \<longrightarrow> respond e1 h c = respond e2 h c"
    and "path_exists e1 = path_exists e2"
    and "now e1 = now e2"
  shows "fst (run_single_simulation e1 run_id params base_run_dir final_image_dir) =
         fst (run_single_simulation e2 run_id params base_run_dir final_image_dir) \<and>
         status_of (fst (run_single_simulation e1 run_id params base_run_dir final_image_dir)) =
         status_of (fst (run_single_simulation e2 run_id params base_run_dir final_image_dir))"
proof -
  let ?p = "simulation_path base_run_dir run_id"
  let ?cs = "if \<not> path_exists e2 ?p then [Makedirs ?p] else []"
  let ?l = "Launch_mapdl ?p jobname True"
  have m: "\<forall>c\<in>set ?cs. \<not> is_render c"
    by (simp add: is_render_def)
  obtain r1 u1 where a1: "exec e1 ?cs [] = (r1, u1)"
    by (cases "exec e1 ?cs []")
  obtain r2 u2 where a2: "exec e2 ?cs [] = (r2, u2)"
    by (cases "exec e2 ?cs []")
  from exec_agree [OF assms(1) m, of "[]" "[]"] a1 a2 have
    eq1: "r1 = r2" "map fst u1 = map fst u2"
    by simp_all
  have l: "respond e1 (map fst u1) ?l = respond e2 (map fst u2) ?l"
    using assms(1) eq1(2) by (simp add: is_render_def)
  have "fst (run_single_simulation e1 run_id params base_run_dir final_image_dir) =
      fst (run_single_simulation e2 run_id params base_run_dir final_image_dir)"
  proof (cases r2)
    case (Some c)
    with a1 a2 eq1 assms(2) show ?thesis
      by (simp add: run_single_simulation_def Let_def)
  next
    case None
    show ?thesis
    proof (cases "respond e2 (map fst u2) ?l")
      case Raise
      with a1 a2 eq1 None l assms(2,3) show ?thesis
        by (simp add: run_single_simulation_def Let_def call_def)
    next
      case (Ok v)
      have t: "map fst (u1 @ [(?l, Ok v)]) = map fst (u2 @ [(?l, Ok v)])"
        using eq1(2) by simp
      have "fst (read_params_and_simulate e1 run_id params final_image_dir (u1 @ [(?l, Ok v)])) =
          fst (read_params_and_simulate e2 run_id params final_image_dir (u2 @ [(?l, Ok v)]))"
        using simulate_agree [OF assms(1) assms(3) t]
        by (simp add: read_params_and_simulate_def split: option.splits)
      with a1 a2 eq1 None l Ok assms(2) show ?thesis
        by (simp add: run_single_simulation_def Let_def call_def)
    qed
  qed
  then show ?thesis by simp
qed

theorem rendering_does_not_change_outcome_witness:
  "render_fails (Eplot (input_png_path FINAL_IMAGE_DIR 1)) = Raise \<and>
   render_fails (Plot_nodal_temperature (output_png_path FINAL_IMAGE_DIR 1)) = Raise \<and>
   fst (time_test_run (const_env render_fails)) = fst (time_test_run (const_env all_ok)) \<and>
   status_of (fst (time_test_run (const_env render_fails))) =
     status_of (fst (time_test_run (const_env all_ok)))"
proof -
  have A: "\<forall>h c. \<not> is_render c \<longrightarrow>
      respond (const_env render_fails) h c = respond (const_env all_ok) h c"
    by (simp add: render_fails_def all_ok_def)
  have B: "path_exists (const_env render_fails) = path_exists (const_env all_ok)"
    "now (const_env render_fails) = now (const_env all_ok)"
    by (simp_all add: const_env_def)
  from rendering_does_not_change_outcome [OF A B, of 1 time_test_params BASE_RUN_DIR FINAL_IMAGE_DIR]
  show ?thesis
    by (simp add: time_test_run_def render_fails_def is_render_def)
qed

section \<open>The guard on an empty selection\<close>















end
